theory Spec2Isabelle
  imports Complex_Main "HOL-Library.AList" "HOL-Library.Multiset"
begin

section \<open>Values of the numerical library\<close>

text \<open>
  The script \<^verbatim>\<open>book/sqmc/sqmc_as_dim_grows.py\<close> computes with numpy's float64 values.
  A value is modelled as an exact real number or one of the three special values of
  IEEE arithmetic. Rounding, overflow and the sign of zero are not modelled: a finite
  value is the real number it stands for. Under numpy's default error state a division
  by zero or an invalid operation gives a warning and a special value, never an
  exception.
\<close>

datatype npfloat = Fin real | PInf | NInf | NaN

fun np_neg :: "npfloat \<Rightarrow> npfloat" where
  "np_neg (Fin x) = Fin (- x)"
| "np_neg PInf = NInf"
| "np_neg NInf = PInf"
| "np_neg NaN = NaN"

fun np_add :: "npfloat \<Rightarrow> npfloat \<Rightarrow> npfloat" where
  "np_add (Fin x) (Fin y) = Fin (x + y)"
| "np_add NaN b = NaN"
| "np_add a NaN = NaN"
| "np_add PInf NInf = NaN"
| "np_add NInf PInf = NaN"
| "np_add PInf b = PInf"
| "np_add a PInf = PInf"
| "np_add NInf b = NInf"
| "np_add a NInf = NInf"

definition np_sub :: "npfloat \<Rightarrow> npfloat \<Rightarrow> npfloat" where
  "np_sub a b = np_add a (np_neg b)"

fun np_mul :: "npfloat \<Rightarrow> npfloat \<Rightarrow> npfloat" where
  "np_mul (Fin x) (Fin y) = Fin (x * y)"
| "np_mul NaN b = NaN"
| "np_mul a NaN = NaN"
| "np_mul PInf (Fin y) = (if y = 0 then NaN else if 0 < y then PInf else NInf)"
| "np_mul NInf (Fin y) = (if y = 0 then NaN else if 0 < y then NInf else PInf)"
| "np_mul (Fin x) PInf = (if x = 0 then NaN else if 0 < x then PInf else NInf)"
| "np_mul (Fin x) NInf = (if x = 0 then NaN else if 0 < x then NInf else PInf)"
| "np_mul PInf PInf = PInf"
| "np_mul NInf NInf = PInf"
| "np_mul PInf NInf = NInf"
| "np_mul NInf PInf = NInf"

fun np_div :: "npfloat \<Rightarrow> npfloat \<Rightarrow> npfloat" where
  "np_div (Fin x) (Fin y) =
     (if y = 0 then (if x = 0 then NaN else if 0 < x then PInf else NInf)
      else Fin (x / y))"
| "np_div NaN b = NaN"
| "np_div a NaN = NaN"
| "np_div (Fin x) b = Fin 0"
| "np_div PInf (Fin y) = (if 0 \<le> y then PInf else NInf)"
| "np_div NInf (Fin y) = (if 0 \<le> y then NInf else PInf)"
| "np_div a b = NaN"

text \<open>\<^verbatim>\<open>np.log10\<close>: minus infinity at zero, not a number below zero.\<close>

fun np_log10 :: "npfloat \<Rightarrow> npfloat" where
  "np_log10 (Fin x) = (if 0 < x then Fin (log 10 x) else if x = 0 then NInf else NaN)"
| "np_log10 PInf = PInf"
| "np_log10 NInf = NaN"
| "np_log10 NaN = NaN"

text \<open>\<^verbatim>\<open>x ** 2\<close> on a float array squares each entry.\<close>

definition np_square :: "npfloat \<Rightarrow> npfloat" where
  "np_square a = np_mul a a"

definition np_sum :: "npfloat list \<Rightarrow> npfloat" where
  "np_sum xs = foldl np_add (Fin 0) xs"

text \<open>
  \<^verbatim>\<open>np.mean\<close> divides the sum by the number of entries; for an empty array that is
  \<open>0 / 0\<close>, not a number. \<^verbatim>\<open>np.var\<close> (with its default \<^verbatim>\<open>ddof=0\<close>) subtracts the
  mean, multiplies each deviation by itself, and divides the sum by the number of
  entries.
\<close>

definition np_mean :: "npfloat list \<Rightarrow> npfloat" where
  "np_mean xs = np_div (np_sum xs) (Fin (real (length xs)))"

definition np_var :: "npfloat list \<Rightarrow> npfloat" where
  "np_var xs =
     (let arrmean = np_mean xs;
          x = map (\<lambda>a. np_sub a arrmean) xs;
          x = map (\<lambda>a. np_mul a a) x
      in np_div (np_sum x) (Fin (real (length xs))))"

section \<open>Names of the problems\<close>

text \<open>
  \<^verbatim>\<open>'%i' % d\<close> writes an integer in decimal, with a minus sign when it is negative.
\<close>

definition digit_char :: "nat \<Rightarrow> char" where
  "digit_char k = ''0123456789'' ! k"

function dec_str :: "nat \<Rightarrow> string" where
  "dec_str n = (if n < 10 then [digit_char n] else dec_str (n div 10) @ [digit_char (n mod 10)])"
  by pat_completeness auto
termination
  by (relation "measure (\<lambda>n. n)") auto

declare dec_str.simps [simp del]

definition fmt_i :: "int \<Rightarrow> string" where
  "fmt_i d = (if d < 0 then CHR ''-'' # dec_str (nat (- d)) else dec_str (nat d))"

text \<open>\<^verbatim>\<open>range(start, stop, step)\<close> for a positive step.\<close>

definition py_range :: "int \<Rightarrow> int \<Rightarrow> int \<Rightarrow> int list" where
  "py_range start stop step =
     map (\<lambda>k. start + step * int k) [0..<nat ((stop - start + step - 1) div step)]"


definition dims :: "int list" where
  "dims = py_range 5 21 5"

section \<open>The registry of problems\<close>

text \<open>
  \<^verbatim>\<open>models\<close> is an \<^verbatim>\<open>OrderedDict\<close>: an association list in insertion order. Assigning to
  a key that is present replaces its value where it stands; a new key goes to the end.
  That is \<^const>\<open>AList.update\<close>. The state-space model and the data simulated for a
  dimension come from the modelling library; \<open>simulate d\<close> stands for the pair made
  at dimension \<open>d\<close>.
\<close>

datatype ('m, 'y) fk_model = Bootstrap 'm 'y | GuidedPF 'm 'y

definition register :: "(int \<Rightarrow> 'm \<times> 'y) \<Rightarrow> (string \<times> ('m, 'y) fk_model) list \<Rightarrow> int
    \<Rightarrow> (string \<times> ('m, 'y) fk_model) list" where
  "register simulate models d =
     (let (my_ssm, data) = simulate d;
          models = AList.update (''boot_'' @ fmt_i d) (Bootstrap my_ssm data) models;
          models = AList.update (''guided_'' @ fmt_i d) (GuidedPF my_ssm data) models
      in models)"

definition build_models :: "(int \<Rightarrow> 'm \<times> 'y) \<Rightarrow> int list
    \<Rightarrow> (string \<times> ('m, 'y) fk_model) list" where
  "build_models simulate ds = foldl (register simulate) [] ds"

section \<open>The efficiency aggregator\<close>

text \<open>
  A record of \<^verbatim>\<open>results\<close>, as the batch runner returns it: the name of the problem
  (\<^verbatim>\<open>r['fk']\<close>), the driving mode (\<^verbatim>\<open>r['qmc']\<close>) and, for each time step, the
  filtering mean vector \<^verbatim>\<open>r['output'].summaries.moments[t]['mean']\<close>.
\<close>

record result =
  res_fk :: string
  res_qmc :: bool
  res_means :: "npfloat list list"

datatype error = IndexError | NameError | KeyError

text \<open>
  \<^verbatim>\<open>estimate = lambda r: r['output'].summaries.moments[t]['mean'][0]\<close>: both
  subscripts raise \<^verbatim>\<open>IndexError\<close> out of range.
\<close>

definition estimate :: "nat \<Rightarrow> result \<Rightarrow> error + npfloat" where
  "estimate t r =
     (if t < length (res_means r) then
        (case res_means r ! t of [] \<Rightarrow> Inl IndexError | x # _ \<Rightarrow> Inr x)
      else Inl IndexError)"

text \<open>A list comprehension stops at the first element that raises.\<close>

fun collect :: "('a \<Rightarrow> error + 'b) \<Rightarrow> 'a list \<Rightarrow> error + 'b list" where
  "collect f [] = Inr []"
| "collect f (x # xs) =
     (case f x of Inl e \<Rightarrow> Inl e
      | Inr y \<Rightarrow> (case collect f xs of Inl e \<Rightarrow> Inl e | Inr ys \<Rightarrow> Inr (y # ys)))"

definition gather :: "result list \<Rightarrow> int \<Rightarrow> nat \<Rightarrow> string \<Rightarrow> bool \<Rightarrow> error + npfloat list" where
  "gather results d t type_fk qmc =
     collect (estimate t)
       (filter (\<lambda>r. res_qmc r = qmc \<and> res_fk r = type_fk @ ''_'' @ fmt_i d) results)"

text \<open>One entry of \<^verbatim>\<open>results_mse\<close>.\<close>

record row =
  row_fk :: string
  row_dim :: int
  row_qmc :: bool
  row_t :: nat
  row_log10_gain :: npfloat

text \<open>
  The variables the formatting loop assigns. A variable that has not been assigned is
  \<open>None\<close>; reading it raises \<^verbatim>\<open>NameError\<close>.
\<close>

record state =
  est :: "npfloat list option"
  base_mean :: "npfloat option"
  base_mse :: "npfloat option"
  mse :: "npfloat option"
  log10_gain :: "npfloat option"
  results_mse :: "row list"

definition unbound :: state where
  "unbound = \<lparr>est = None, base_mean = None, base_mse = None, mse = None,
     log10_gain = None, results_mse = []\<rparr>"

text \<open>The body of the innermost loop (lines 68 to 77).\<close>

definition cell_body :: "result list \<Rightarrow> int \<Rightarrow> nat \<Rightarrow> string \<Rightarrow> bool \<Rightarrow> state \<Rightarrow> error + state" where
  "cell_body results d t type_fk qmc st =
     (case gather results d t type_fk qmc of
        Inl e \<Rightarrow> Inl e
      | Inr es \<Rightarrow>
          let st = st\<lparr>est := Some es\<rparr> in
          if type_fk = ''guided'' \<and> qmc = False then
            Inr (st\<lparr>base_mean := Some (np_mean es), base_mse := Some (np_var es)\<rparr>)
          else
            (case base_mean st of
               None \<Rightarrow> Inl NameError
             | Some bm \<Rightarrow>
                 let m = np_mean (map (\<lambda>e. np_square (np_sub e bm)) es);
                     st = st\<lparr>mse := Some m\<rparr>
                 in (case base_mse st of
                       None \<Rightarrow> Inl NameError
                     | Some bv \<Rightarrow>
                         let g = np_add (np_neg (np_log10 m)) (np_log10 bv);
                             st = st\<lparr>log10_gain := Some g\<rparr>
                         in Inr (st\<lparr>results_mse := results_mse st @
                              [\<lparr>row_fk = type_fk, row_dim = d, row_qmc = qmc, row_t = t,
                                row_log10_gain = g\<rparr>]\<rparr>))))"

text \<open>A \<^verbatim>\<open>for\<close> loop whose body may raise.\<close>

fun for_each :: "('a \<Rightarrow> 's \<Rightarrow> error + 's) \<Rightarrow> 'a list \<Rightarrow> 's \<Rightarrow> error + 's" where
  "for_each body [] s = Inr s"
| "for_each body (x # xs) s =
     (case body x s of Inl e \<Rightarrow> Inl e | Inr s' \<Rightarrow> for_each body xs s')"

definition qmc_loop :: "result list \<Rightarrow> int \<Rightarrow> nat \<Rightarrow> string \<Rightarrow> state \<Rightarrow> error + state" where
  "qmc_loop results d t type_fk = for_each (cell_body results d t type_fk) [False, True]"

definition fk_loop :: "result list \<Rightarrow> int \<Rightarrow> nat \<Rightarrow> state \<Rightarrow> error + state" where
  "fk_loop results d t = for_each (qmc_loop results d t) [''guided'', ''boot'']"

definition t_loop :: "nat \<Rightarrow> result list \<Rightarrow> int \<Rightarrow> state \<Rightarrow> error + state" where
  "t_loop h results d = for_each (fk_loop results d) [0..<h]"

text \<open>Lines 61 to 77, for a list of dimensions \<open>ds\<close> and a horizon \<open>h\<close>.\<close>

definition format_results :: "int list \<Rightarrow> nat \<Rightarrow> result list \<Rightarrow> state \<Rightarrow> error + state" where
  "format_results ds h results st = for_each (t_loop h results) ds (st\<lparr>results_mse := []\<rparr>)"

section \<open>The result table\<close>

text \<open>
  \<^verbatim>\<open>pd.DataFrame(results_mse)\<close> has one row for each entry, in order. A frame made
  from the empty list has no columns, so \<^verbatim>\<open>df['fk']\<close> raises \<^verbatim>\<open>KeyError\<close> there.
\<close>

record table_row = row +
  fk_qmc :: string

definition label :: "row \<Rightarrow> table_row" where
  "label r = \<lparr>row_fk = row_fk r, row_dim = row_dim r, row_qmc = row_qmc r, row_t = row_t r,
     row_log10_gain = row_log10_gain r,
     fk_qmc = row_fk r @ (if row_qmc r then '' SQMC'' else '' SMC'')\<rparr>"

definition build_table :: "row list \<Rightarrow> error + table_row list" where
  "build_table rows = (if rows = [] then Inl KeyError else Inr (map label rows))"

definition make_table :: "int list \<Rightarrow> nat \<Rightarrow> result list \<Rightarrow> state \<Rightarrow> error + table_row list" where
  "make_table ds h results st =
     (case format_results ds h results st of
        Inl e \<Rightarrow> Inl e
      | Inr st' \<Rightarrow> build_table (results_mse st'))"

section \<open>The aggregation, cell by cell\<close>

text \<open>
  The two inner loops visit the four categories in this order; \<open>steps results d t k\<close>
  is the run of the first \<open>k\<close> of them at dimension \<open>d\<close> and time \<open>t\<close>.
\<close>

definition categories :: "(string \<times> bool) list" where
  "categories = List.product [''guided'', ''boot''] [False, True]"

definition steps :: "result list \<Rightarrow> int \<Rightarrow> nat \<Rightarrow> nat \<Rightarrow> state \<Rightarrow> error + state" where
  "steps results d t k =
     for_each (\<lambda>c. cell_body results d t (fst c) (snd c)) (take k categories)"

text \<open>
  The statistics in the words of the specification, on real numbers: the empirical mean,
  the mean squared deviation from a given centre, and the gain
  \<open>- log10 mse + log10 base_mse\<close>.
\<close>

definition mean :: "real list \<Rightarrow> real" where
  "mean xs = sum_list xs / real (length xs)"

definition mean_sq_dev :: "real \<Rightarrow> real list \<Rightarrow> real" where
  "mean_sq_dev c xs = mean (map (\<lambda>x. (x - c)\<^sup>2) xs)"

definition variance :: "real list \<Rightarrow> real" where
  "variance xs = mean_sq_dev (mean xs) xs"

text \<open>
  The estimates of a category at \<open>(d, t)\<close> (empty where gathering them raises), the
  gain of a sample \<open>es\<close> against a reference sample \<open>ref\<close>, and the table the
  specification describes: for each dimension and time step, one row for each
  category other than the reference, each computed from the reference sample of the
  same dimension and time step.
\<close>

definition sample :: "result list \<Rightarrow> int \<Rightarrow> nat \<Rightarrow> string \<Rightarrow> bool \<Rightarrow> npfloat list" where
  "sample results d t type_fk qmc =
     (case gather results d t type_fk qmc of Inl e \<Rightarrow> [] | Inr es \<Rightarrow> es)"

definition sq_error :: "npfloat list \<Rightarrow> npfloat list \<Rightarrow> npfloat" where
  "sq_error ref es = np_mean (map (\<lambda>e. np_square (np_sub e (np_mean ref))) es)"

definition gain_of :: "npfloat list \<Rightarrow> npfloat list \<Rightarrow> npfloat" where
  "gain_of ref es = np_add (np_neg (np_log10 (sq_error ref es))) (np_log10 (np_var ref))"

definition cell_row :: "result list \<Rightarrow> int \<Rightarrow> nat \<Rightarrow> string \<Rightarrow> bool \<Rightarrow> row" where
  "cell_row results d t type_fk qmc =
     \<lparr>row_fk = type_fk, row_dim = d, row_qmc = qmc, row_t = t,
      row_log10_gain =
        gain_of (sample results d t ''guided'' False) (sample results d t type_fk qmc)\<rparr>"

definition cells :: "result list \<Rightarrow> int \<Rightarrow> nat \<Rightarrow> row list" where
  "cells results d t =
     [cell_row results d t ''guided'' True, cell_row results d t ''boot'' False,
      cell_row results d t ''boot'' True]"

definition grid :: "int list \<Rightarrow> nat \<Rightarrow> result list \<Rightarrow> row list" where
  "grid ds h results = concat (map (\<lambda>d. concat (map (cells results d) [0..<h])) ds)"

definition row_key :: "row \<Rightarrow> int \<times> nat \<times> string \<times> bool" where
  "row_key r = (row_dim r, row_t r, row_fk r, row_qmc r)"

text \<open>
  A record of the batch runner is complete for a horizon \<open>h\<close> when it has a mean
  vector with a first coordinate for each of the time steps \<open>0, ..., h - 1\<close>.
\<close>

definition complete :: "nat \<Rightarrow> result \<Rightarrow> bool" where
  "complete h r =
     (h \<le> length (res_means r) \<and> list_all (\<lambda>m. m \<noteq> []) (take h (res_means r)))"


section \<open>Concrete replication results\<close>

text \<open>
  A replication with a single time step whose estimate is \<open>x\<close>, and the scenario of the
  specification at dimension 5 and time 0: four reference replications with estimates
  1, 1, 1, 3 and four guided quasi-random replications with estimate 2.
\<close>

definition replication :: "string \<Rightarrow> bool \<Rightarrow> real \<Rightarrow> result" where
  "replication name q x = \<lparr>res_fk = name, res_qmc = q, res_means = [[Fin x]]\<rparr>"

definition scenario :: "result list" where
  "scenario =
     map (replication ''guided_5'' False) [1, 1, 1, 3] @
     map (replication ''guided_5'' True) [2, 2, 2, 2]"

text \<open>
  Collections at dimension 5 with one time step in which all four categories have two
  replications: a reference sample with no spread, one whose mean the other categories
  hit exactly, and one in which every category has the estimates of the reference and
  these are all equal.
\<close>

definition population :: "real list \<Rightarrow> real list \<Rightarrow> result list" where
  "population ref other =
     map (replication ''guided_5'' False) ref @
     map (replication ''guided_5'' True) other @
     map (replication ''boot_5'' False) other @
     map (replication ''boot_5'' True) other"

definition flat_reference :: "result list" where
  "flat_reference = population [1, 1] [2, 2]"

definition exact_category :: "result list" where
  "exact_category = population [1, 3] [2, 2]"

definition same_flat :: "result list" where
  "same_flat = population [1, 1] [1, 1]"

text \<open>
  A collection in which the other categories have the estimates of the reference in
  another order.
\<close>

definition shuffled :: "result list" where
  "shuffled = population [1, 3] [3, 1]"


text \<open>Variables left over from an earlier run of the loop.\<close>

definition stale :: state where
  "stale = \<lparr>est = Some [Fin 7], base_mean = Some (Fin 100), base_mse = Some (Fin 9),
     mse = Some (Fin 4), log10_gain = Some (Fin 1), results_mse = []\<rparr>"

section \<open>Properties of the loops\<close>

lemma for_each_append:
  "for_each body (xs @ ys) s =
     (case for_each body xs s of Inl e \<Rightarrow> Inl e | Inr s' \<Rightarrow> for_each body ys s')"
  by (induction xs arbitrary: s) (auto split: sum.splits)

lemma categories_eq:
  "categories = [(''guided'', False), (''guided'', True), (''boot'', False), (''boot'', True)]"
  by (simp add: categories_def)

lemma fk_loop_steps: "fk_loop results d t = steps results d t 4"
  by (rule ext) (simp add: fk_loop_def qmc_loop_def steps_def categories_eq split: sum.splits)

lemma cell_body_ref:
  "cell_body results d t ''guided'' False st =
     (case gather results d t ''guided'' False of
        Inl e \<Rightarrow> Inl e
      | Inr es \<Rightarrow> Inr (st\<lparr>est := Some es, base_mean := Some (np_mean es),
           base_mse := Some (np_var es)\<rparr>))"
  by (simp add: cell_body_def split: sum.splits)

lemma cell_body_other:
  assumes "\<not> (type_fk = ''guided'' \<and> qmc = False)"
    and "base_mean st = Some bm" and "base_mse st = Some bv"
  shows "cell_body results d t type_fk qmc st =
     (case gather results d t type_fk qmc of
        Inl e \<Rightarrow> Inl e
      | Inr es \<Rightarrow>
          Inr (st\<lparr>est := Some es,
            mse := Some (np_mean (map (\<lambda>e. np_square (np_sub e bm)) es)),
            log10_gain := Some (np_add (np_neg (np_log10
               (np_mean (map (\<lambda>e. np_square (np_sub e bm)) es)))) (np_log10 bv)),
            results_mse := results_mse st @
              [\<lparr>row_fk = type_fk, row_dim = d, row_qmc = qmc, row_t = t,
                row_log10_gain = np_add (np_neg (np_log10
               (np_mean (map (\<lambda>e. np_square (np_sub e bm)) es)))) (np_log10 bv)\<rparr>]\<rparr>))"
  using assms
  by (cases qmc; cases "type_fk = ''guided''") (simp_all add: cell_body_def Let_def split: sum.splits)

lemma fk_loop_Inr:
  assumes "fk_loop results d t st = Inr st'"
  shows "results_mse st' = results_mse st @ cells results d t"
    and "base_mean st' = Some (np_mean (sample results d t ''guided'' False))"
    and "base_mse st' = Some (np_var (sample results d t ''guided'' False))"
  using assms
  by (auto simp add: fk_loop_def qmc_loop_def cell_body_ref cell_body_other cells_def cell_row_def
      sample_def gain_of_def sq_error_def split: sum.splits)

lemma for_each_fk_loop_Inr:
  "for_each (fk_loop results d) ts st = Inr st' \<Longrightarrow>
     results_mse st' = results_mse st @ concat (map (cells results d) ts)"
proof (induction ts arbitrary: st)
  case Nil
  then show ?case by simp
next
  case (Cons t ts)
  from Cons.prems obtain s1 where s1: "fk_loop results d t st = Inr s1"
    and rest: "for_each (fk_loop results d) ts s1 = Inr st'"
    by (auto split: sum.splits)
  from Cons.IH [OF rest] fk_loop_Inr(1) [OF s1] show ?case by simp
qed

lemma t_loop_Inr:
  "t_loop h results d st = Inr st' \<Longrightarrow>
     results_mse st' = results_mse st @ concat (map (cells results d) [0..<h])"
  unfolding t_loop_def by (rule for_each_fk_loop_Inr)

lemma for_each_t_loop_Inr:
  "for_each (t_loop h results) ds st = Inr st' \<Longrightarrow>
     results_mse st' = results_mse st @ grid ds h results"
proof (induction ds arbitrary: st)
  case Nil
  then show ?case by (simp add: grid_def)
next
  case (Cons d ds)
  from Cons.prems obtain s1 where s1: "t_loop h results d st = Inr s1"
    and rest: "for_each (t_loop h results) ds s1 = Inr st'"
    by (auto split: sum.splits)
  from Cons.IH [OF rest] t_loop_Inr [OF s1] show ?case by (simp add: grid_def)
qed

lemma format_results_Inr:
  "format_results ds h results st = Inr st' \<Longrightarrow> results_mse st' = grid ds h results"
  unfolding format_results_def by (drule for_each_t_loop_Inr) simp

subsection \<open>Complete records never raise\<close>

lemma estimate_complete:
  "complete h r \<Longrightarrow> t < h \<Longrightarrow> \<exists>x. estimate t r = Inr x"
  by (auto simp add: complete_def estimate_def list_all_length split: list.splits)

lemma collect_total:
  "(\<And>x. x \<in> set xs \<Longrightarrow> \<exists>y. f x = Inr y) \<Longrightarrow> \<exists>ys. collect f xs = Inr ys"
proof (induction xs)
  case Nil
  then show ?case by simp
next
  case (Cons x xs)
  then obtain y ys where "f x = Inr y" "collect f xs = Inr ys"
    by (metis list.set_intros(1) list.set_intros(2))
  then show ?case by simp
qed

lemma gather_complete:
  assumes "list_all (complete h) results" and "t < h"
  shows "\<exists>es. gather results d t type_fk qmc = Inr es"
  unfolding gather_def
  by (rule collect_total) (use assms in \<open>auto simp add: list_all_iff intro: estimate_complete\<close>)

lemma fk_loop_complete:
  assumes "list_all (complete h) results" and "t < h"
  shows "\<exists>st'. fk_loop results d t st = Inr st'"
proof -
  obtain e1 e2 e3 e4 where
    "gather results d t ''guided'' False = Inr e1" "gather results d t ''guided'' True = Inr e2"
    "gather results d t ''boot'' False = Inr e3" "gather results d t ''boot'' True = Inr e4"
    using gather_complete [OF assms] by metis
  then show ?thesis
    by (simp add: fk_loop_def qmc_loop_def cell_body_ref cell_body_other)
qed

lemma for_each_total:
  "(\<And>x s. x \<in> set xs \<Longrightarrow> \<exists>s'. body x s = Inr s') \<Longrightarrow> \<exists>s'. for_each body xs s = Inr s'"
proof (induction xs arbitrary: s)
  case Nil
  then show ?case by simp
next
  case (Cons x xs)
  from Cons.prems obtain s1 where "body x s = Inr s1" by (metis list.set_intros(1))
  moreover from Cons.IH Cons.prems have "\<exists>s'. for_each body xs s1 = Inr s'"
    by (metis list.set_intros(2))
  ultimately show ?case by simp
qed

lemma t_loop_complete:
  "list_all (complete h) results \<Longrightarrow> \<exists>st'. t_loop h results d st = Inr st'"
  unfolding t_loop_def by (rule for_each_total) (auto intro: fk_loop_complete)

lemma format_results_complete:
  "list_all (complete h) results \<Longrightarrow> \<exists>st'. format_results ds h results st = Inr st'"
  unfolding format_results_def by (rule for_each_total) (auto intro: t_loop_complete)

subsection \<open>On finite samples the statistics are the real ones\<close>

lemma foldl_np_add_Fin: "foldl np_add (Fin a) (map Fin xs) = Fin (a + sum_list xs)"
  by (induction xs arbitrary: a) (simp_all add: add.assoc)

lemma np_sum_Fin: "np_sum (map Fin xs) = Fin (sum_list xs)"
  by (simp add: np_sum_def foldl_np_add_Fin)

lemma np_mean_Fin: "xs \<noteq> [] \<Longrightarrow> np_mean (map Fin xs) = Fin (mean xs)"
  by (simp add: np_mean_def np_sum_Fin mean_def)

lemma np_mean_Nil: "np_mean [] = NaN"
  by (simp add: np_mean_def np_sum_def)

lemma sq_dev_Fin:
  "map (\<lambda>e. np_square (np_sub e (Fin c))) (map Fin ys) = map Fin (map (\<lambda>y. (y - c)\<^sup>2) ys)"
  by (simp add: np_square_def np_sub_def power2_eq_square)

lemma sq_error_Fin:
  "xs \<noteq> [] \<Longrightarrow> ys \<noteq> [] \<Longrightarrow>
     sq_error (map Fin xs) (map Fin ys) = Fin (mean_sq_dev (mean xs) ys)"
  by (simp add: sq_error_def np_mean_Fin sq_dev_Fin mean_sq_dev_def del: map_map)

lemma np_var_Fin: "xs \<noteq> [] \<Longrightarrow> np_var (map Fin xs) = Fin (variance xs)"
proof -
  assume ne: "xs \<noteq> []"
  have "map (\<lambda>a. np_mul a a) (map (\<lambda>a. np_sub a (Fin (mean xs))) (map Fin xs)) =
      map Fin (map (\<lambda>y. (y - mean xs)\<^sup>2) xs)"
    by (simp add: np_sub_def power2_eq_square)
  with ne show ?thesis
    by (simp add: np_var_def Let_def np_mean_Fin np_sum_Fin variance_def mean_sq_dev_def
        mean_def del: map_map)
qed

lemma mean_sq_dev_nonneg: "0 \<le> mean_sq_dev c xs"
  by (auto simp add: mean_sq_dev_def mean_def intro!: divide_nonneg_nonneg sum_list_nonneg)

lemma mean_sq_dev_zero_iff:
  "xs \<noteq> [] \<Longrightarrow> mean_sq_dev c xs = 0 \<longleftrightarrow> list_all (\<lambda>x. x = c) xs"
proof -
  assume ne: "xs \<noteq> []"
  have "(\<Sum>x\<leftarrow>xs. (x - c)\<^sup>2) = 0 \<longleftrightarrow> (\<forall>x\<in>set xs. x = c)"
  proof (induction xs)
    case Nil
    then show ?case by simp
  next
    case (Cons a xs)
    have "0 \<le> (\<Sum>x\<leftarrow>xs. (x - c)\<^sup>2)" by (rule sum_list_nonneg) auto
    then have "(a - c)\<^sup>2 + (\<Sum>x\<leftarrow>xs. (x - c)\<^sup>2) = 0 \<longleftrightarrow>
        (a - c)\<^sup>2 = 0 \<and> (\<Sum>x\<leftarrow>xs. (x - c)\<^sup>2) = 0"
      by (intro add_nonneg_eq_0_iff) simp_all
    with Cons.IH show ?case by simp
  qed
  with ne show ?thesis
    by (simp add: mean_sq_dev_def mean_def list_all_iff)
qed


subsection \<open>The concrete results\<close>

lemma fmt_i_5: "fmt_i 5 = ''5''"
  by (simp add: fmt_i_def dec_str.simps digit_char_def)

lemma gather_scenario:
  "gather scenario 5 0 ''guided'' False = Inr [Fin 1, Fin 1, Fin 1, Fin 3]"
  "gather scenario 5 0 ''guided'' True = Inr [Fin 2, Fin 2, Fin 2, Fin 2]"
  "gather scenario 5 0 ''boot'' False = Inr []"
  "gather scenario 5 0 ''boot'' True = Inr []"
  by (simp_all add: gather_def scenario_def replication_def fmt_i_5 estimate_def)

lemma collect_replications:
  "collect (estimate 0) (map (replication name q) xs) = Inr (map Fin xs)"
  by (induction xs) (simp_all add: replication_def estimate_def)

lemma gather_population:
  "gather (population ref other) 5 0 ''guided'' False = Inr (map Fin ref)"
  "gather (population ref other) 5 0 ''guided'' True = Inr (map Fin other)"
  "gather (population ref other) 5 0 ''boot'' False = Inr (map Fin other)"
  "gather (population ref other) 5 0 ''boot'' True = Inr (map Fin other)"
  by (simp_all add: gather_def population_def fmt_i_5 filter_map comp_def
      collect_replications collect_replications [unfolded replication_def] replication_def)

lemma complete_population: "list_all (complete 1) (population ref other)"
  by (auto simp add: population_def replication_def complete_def list_all_iff)

lemma gather_Nil: "gather [] d t type_fk qmc = Inr []"
  by (simp add: gather_def)

lemma complete_scenario: "list_all (complete 1) scenario"
  by (simp add: scenario_def replication_def complete_def)

lemma np_var_1113: "np_var [Fin 1, Fin 1, Fin 1, Fin 3] = Fin (3 / 4)"
  by (simp add: np_var_def np_mean_def np_sum_def np_sub_def)

lemma sq_error_1113_2222:
  "sq_error [Fin 1, Fin 1, Fin 1, Fin 3] [Fin 2, Fin 2, Fin 2, Fin 2] = Fin (1 / 4)"
  by (simp add: sq_error_def np_mean_def np_sum_def np_sub_def np_square_def)

lemma log10_quarter: "log 10 (3 / 4) - log 10 (1 / 4) = log 10 (3::real)"
proof -
  have "log 10 (3 / 4) - log 10 (1 / 4) = log 10 ((3 / 4) / (1 / 4) :: real)"
    by (subst log_divide) simp_all
  then show ?thesis by simp
qed

lemma gain_of_scenario:
  "gain_of [Fin 1, Fin 1, Fin 1, Fin 3] [Fin 2, Fin 2, Fin 2, Fin 2] = Fin (log 10 3)"
  using log10_quarter by (simp add: gain_of_def np_var_1113 sq_error_1113_2222)

lemma gain_of_empty: "gain_of ref [] = NaN"
  by (simp add: gain_of_def sq_error_def np_mean_Nil)


subsection \<open>The rows of the table\<close>

lemma sample_scenario:
  "sample scenario 5 0 ''guided'' False = [Fin 1, Fin 1, Fin 1, Fin 3]"
  "sample scenario 5 0 ''guided'' True = [Fin 2, Fin 2, Fin 2, Fin 2]"
  "sample scenario 5 0 ''boot'' False = []"
  "sample scenario 5 0 ''boot'' True = []"
  by (simp_all add: sample_def gather_scenario)

lemma cells_scenario:
  "cells scenario 5 0 =
     [\<lparr>row_fk = ''guided'', row_dim = 5, row_qmc = True, row_t = 0,
        row_log10_gain = Fin (log 10 3)\<rparr>,
      \<lparr>row_fk = ''boot'', row_dim = 5, row_qmc = False, row_t = 0, row_log10_gain = NaN\<rparr>,
      \<lparr>row_fk = ''boot'', row_dim = 5, row_qmc = True, row_t = 0, row_log10_gain = NaN\<rparr>]"
  by (simp add: cells_def cell_row_def sample_scenario gain_of_scenario gain_of_empty)

lemma grid_scenario: "grid [5] (Suc 0) scenario = cells scenario 5 0"
  by (simp add: grid_def)

lemma grid_own_baseline:
  "list_all (\<lambda>r. row_log10_gain r =
       gain_of (sample results (row_dim r) (row_t r) ''guided'' False)
         (sample results (row_dim r) (row_t r) (row_fk r) (row_qmc r)))
     (grid ds h results)"
  by (auto simp add: grid_def cells_def cell_row_def list_all_iff)

text \<open>
  C10: every cell at \<open>(d, t)\<close> other than the reference is computed from the baseline
  statistics of the guided pseudo-random replications at that same \<open>(d, t)\<close>. Whatever
  values the variables hold when the loop starts (here \<open>st\<close> is arbitrary, so also the
  values a previous dimension, time step or run left behind), on complete results the
  loop returns, its rows are those of \<^const>\<open>grid\<close>, and the gain of every row is the
  one computed from the reference sample at the row's own dimension and time step.
\<close>

theorem baseline_is_fresh:
  assumes "list_all (complete h) results"
  shows "\<exists>st'. format_results ds h results st = Inr st' \<and>
      results_mse st' = grid ds h results \<and>
      list_all (\<lambda>r. row_log10_gain r =
          gain_of (sample results (row_dim r) (row_t r) ''guided'' False)
            (sample results (row_dim r) (row_t r) (row_fk r) (row_qmc r)))
        (results_mse st')"
proof -
  from format_results_complete [OF assms] obtain st'
    where run: "format_results ds h results st = Inr st'" by blast
  then have "results_mse st' = grid ds h results" by (rule format_results_Inr)
  with run grid_own_baseline show ?thesis by auto
qed

theorem baseline_is_fresh_witness:
  "list_all (complete 1) scenario \<and>
   (\<exists>st'. format_results [5] 1 scenario stale = Inr st' \<and>
      results_mse st' =
        [\<lparr>row_fk = ''guided'', row_dim = 5, row_qmc = True, row_t = 0,
           row_log10_gain = Fin (log 10 3)\<rparr>,
         \<lparr>row_fk = ''boot'', row_dim = 5, row_qmc = False, row_t = 0, row_log10_gain = NaN\<rparr>,
         \<lparr>row_fk = ''boot'', row_dim = 5, row_qmc = True, row_t = 0, row_log10_gain = NaN\<rparr>])"
  using baseline_is_fresh [OF complete_scenario, of "[5]" stale] complete_scenario
  by (auto simp add: grid_scenario cells_scenario)


subsection \<open>The run of the first categories\<close>

lemma steps_1:
  "steps results d t (Suc 0) st = cell_body results d t ''guided'' False st"
  by (simp add: steps_def categories_eq split: sum.splits)

lemma steps_Suc:
  assumes "k < 4"
  shows "steps results d t (Suc k) st =
     (case steps results d t k st of
        Inl e \<Rightarrow> Inl e
      | Inr s \<Rightarrow> cell_body results d t (fst (categories ! k)) (snd (categories ! k)) s)"
proof -
  have "length categories = 4" by (simp add: categories_eq)
  with assms have "take (Suc k) categories = take k categories @ [categories ! k]"
    by (simp add: take_Suc_conv_app_nth)
  then show ?thesis
    by (simp add: steps_def for_each_append split: sum.splits)
qed

lemma other_category:
  assumes "0 < k" and "k < 4"
  shows "\<not> (fst (categories ! k) = ''guided'' \<and> snd (categories ! k) = False)"
proof -
  from assms have "k = 1 \<or> k = 2 \<or> k = 3" by arith
  then show ?thesis by (auto simp add: categories_eq)
qed

lemma steps_baseline:
  assumes "0 < k" and "k \<le> 4" and "steps results d t k st = Inr s"
  shows "\<exists>ref. gather results d t ''guided'' False = Inr ref \<and>
      base_mean s = Some (np_mean ref) \<and> base_mse s = Some (np_var ref)"
  using assms
proof (induction k arbitrary: s)
  case 0
  then show ?case by simp
next
  case (Suc k)
  show ?case
  proof (cases "k = 0")
    case True
    with Suc.prems show ?thesis
      by (auto simp add: steps_1 cell_body_ref split: sum.splits)
  next
    case False
    with Suc.prems have k: "0 < k" "k < 4" by simp_all
    from Suc.prems(3) k obtain s0 where s0: "steps results d t k st = Inr s0"
      and step: "cell_body results d t (fst (categories ! k)) (snd (categories ! k)) s0 = Inr s"
      by (auto simp add: steps_Suc split: sum.splits)
    from Suc.IH [OF k(1) _ s0] k obtain ref where
      ref: "gather results d t ''guided'' False = Inr ref"
        "base_mean s0 = Some (np_mean ref)" "base_mse s0 = Some (np_var ref)"
      by auto
    from step ref show ?thesis
      by (auto simp add: cell_body_other [OF other_category [OF k] ref(2,3)] split: sum.splits)
  qed
qed

lemma steps_cell:
  assumes "0 < k" and "k < 4" and "steps results d t (Suc k) st = Inr s"
  shows "\<exists>ref es s0.
      gather results d t ''guided'' False = Inr ref \<and>
      gather results d t (fst (categories ! k)) (snd (categories ! k)) = Inr es \<and>
      steps results d t k st = Inr s0 \<and>
      s = s0\<lparr>est := Some es, mse := Some (sq_error ref es),
            log10_gain := Some (gain_of ref es),
            results_mse := results_mse s0 @
              [\<lparr>row_fk = fst (categories ! k), row_dim = d, row_qmc = snd (categories ! k),
                row_t = t, row_log10_gain = gain_of ref es\<rparr>]\<rparr>"
proof -
  from assms obtain s0 where s0: "steps results d t k st = Inr s0"
    and step: "cell_body results d t (fst (categories ! k)) (snd (categories ! k)) s0 = Inr s"
    by (auto simp add: steps_Suc split: sum.splits)
  from steps_baseline [OF assms(1) _ s0] assms(2) obtain ref where
    ref: "gather results d t ''guided'' False = Inr ref"
      "base_mean s0 = Some (np_mean ref)" "base_mse s0 = Some (np_var ref)"
    by auto
  from step ref s0 show ?thesis
    by (auto simp add: cell_body_other [OF other_category [OF assms(1,2)] ref(2,3)]
        sq_error_def gain_of_def split: sum.splits)
qed


lemma steps_complete:
  assumes "list_all (complete h) results" and "t < h" and "k \<le> 4"
  shows "\<exists>s. steps results d t k st = Inr s"
  using assms(3)
proof (induction k)
  case 0
  then show ?case by (simp add: steps_def)
next
  case (Suc k)
  show ?case
  proof (cases "k = 0")
    case True
    from gather_complete [OF assms(1,2)] obtain ref where
      "gather results d t ''guided'' False = Inr ref" by blast
    with True show ?thesis by (simp add: steps_1 cell_body_ref)
  next
    case False
    with Suc.prems have k: "0 < k" "k < 4" by simp_all
    from Suc.IH k obtain s0 where s0: "steps results d t k st = Inr s0" by auto
    from steps_baseline [OF k(1) _ s0] k obtain ref where
      ref: "base_mean s0 = Some (np_mean ref)" "base_mse s0 = Some (np_var ref)"
      by auto
    from gather_complete [OF assms(1,2)] obtain es where
      "gather results d t (fst (categories ! k)) (snd (categories ! k)) = Inr es" by blast
    with s0 k show ?thesis
      by (simp add: steps_Suc cell_body_other [OF other_category [OF k] ref])
  qed
qed

lemma sample_gather: "gather results d t type_fk qmc = Inr es \<Longrightarrow> sample results d t type_fk qmc = es"
  by (simp add: sample_def)

text \<open>
  C5: at every dimension \<open>d\<close> and time step \<open>t\<close> the first category the loops visit is the
  reference. On complete results that first step returns a state in which \<^verbatim>\<open>base_mean\<close>
  is the mean and \<^verbatim>\<open>base_mse\<close> the variance (the mean of the squared deviations from
  that mean) of the reference estimates, and in which no row has been added and
  \<^verbatim>\<open>mse\<close> and \<^verbatim>\<open>log10_gain\<close> are untouched; the three other categories are then run
  from that state, and the reference is not among them.
\<close>

theorem baseline_before_cells:
  assumes "list_all (complete h) results" and "t < h"
  shows "\<exists>s1. steps results d t 1 st = Inr s1 \<and>
      base_mean s1 = Some (np_mean (sample results d t ''guided'' False)) \<and>
      base_mse s1 = Some (np_var (sample results d t ''guided'' False)) \<and>
      results_mse s1 = results_mse st \<and> mse s1 = mse st \<and> log10_gain s1 = log10_gain st \<and>
      fk_loop results d t st =
        for_each (\<lambda>c. cell_body results d t (fst c) (snd c)) (drop 1 categories) s1 \<and>
      take 1 categories = [(''guided'', False)] \<and>
      (''guided'', False) \<notin> set (drop 1 categories) \<and>
      length (drop 1 categories) = 3 \<and>
      (\<forall>xs. xs \<noteq> [] \<longrightarrow> sample results d t ''guided'' False = map Fin xs \<longrightarrow>
         base_mean s1 = Some (Fin (mean xs)) \<and>
         base_mse s1 = Some (Fin (mean_sq_dev (mean xs) xs)))"
proof -
  from gather_complete [OF assms] obtain ref where
    ref: "gather results d t ''guided'' False = Inr ref" by blast
  then have sref: "sample results d t ''guided'' False = ref" by (rule sample_gather)
  define s1 where "s1 = st\<lparr>est := Some ref, base_mean := Some (np_mean ref),
    base_mse := Some (np_var ref)\<rparr>"
  have 1: "steps results d t 1 st = Inr s1"
    using ref by (simp add: steps_1 cell_body_ref s1_def)
  have "take 4 categories = take 1 categories @ drop 1 categories"
    by (simp add: categories_eq)
  then have "fk_loop results d t st =
      for_each (\<lambda>c. cell_body results d t (fst c) (snd c)) (take 1 categories @ drop 1 categories) st"
    by (simp add: fk_loop_steps steps_def)
  also have "\<dots> = for_each (\<lambda>c. cell_body results d t (fst c) (snd c)) (drop 1 categories) s1"
    using 1 unfolding for_each_append by (simp add: steps_def)
  finally have 2: "fk_loop results d t st =
      for_each (\<lambda>c. cell_body results d t (fst c) (snd c)) (drop 1 categories) s1" .
  have 3: "take 1 categories = [(''guided'', False)]"
    "(''guided'', False) \<notin> set (drop 1 categories)" "length (drop 1 categories) = 3"
    by (simp_all add: categories_eq)
  have 4: "base_mean s1 = Some (np_mean ref)" "base_mse s1 = Some (np_var ref)"
    "results_mse s1 = results_mse st" "mse s1 = mse st" "log10_gain s1 = log10_gain st"
    by (simp_all add: s1_def)
  have 5: "\<forall>xs. xs \<noteq> [] \<longrightarrow> ref = map Fin xs \<longrightarrow>
         base_mean s1 = Some (Fin (mean xs)) \<and>
         base_mse s1 = Some (Fin (mean_sq_dev (mean xs) xs))"
    using 4 by (auto simp add: np_mean_Fin np_var_Fin variance_def)
  from 1 2 3 4 5 show ?thesis unfolding sref by blast
qed

theorem baseline_before_cells_witness:
  "list_all (complete 1) scenario \<and> (0::nat) < 1 \<and>
   (\<exists>s1. steps scenario 5 0 1 unbound = Inr s1 \<and>
      base_mean s1 = Some (Fin (3 / 2)) \<and> base_mse s1 = Some (Fin (3 / 4)) \<and>
      results_mse s1 = [] \<and> mse s1 = None \<and>
      fk_loop scenario 5 0 unbound =
        for_each (\<lambda>c. cell_body scenario 5 0 (fst c) (snd c)) (drop 1 categories) s1)"
proof -
  have m: "np_mean [Fin 1, Fin 1, Fin 1, Fin 3] = Fin (3 / 2)"
    by (simp add: np_mean_def np_sum_def)
  show ?thesis
    using baseline_before_cells [OF complete_scenario, of 0 5 unbound] complete_scenario
    by (auto simp add: sample_scenario m np_var_1113 unbound_def)
qed


subsection \<open>The decimal logarithm of three\<close>

lemma log10_power_less:
  fixes x :: real
  assumes "0 < x" and "x ^ n < 10 ^ k" and "0 < n"
  shows "log 10 x < real k / real n"
proof -
  have "log 10 (x ^ n) < log 10 (10 ^ k)"
    using assms by (subst log_less_cancel_iff) simp_all
  moreover have "log 10 (x ^ n) = real n * log 10 x"
    using assms by (simp add: log_nat_power)
  moreover have "log 10 ((10::real) ^ k) = real k"
    by (simp add: log_nat_power)
  ultimately have "real n * log 10 x < real k" by simp
  with \<open>0 < n\<close> show ?thesis by (simp add: pos_less_divide_eq mult.commute)
qed

lemma log10_power_greater:
  fixes x :: real
  assumes "0 < x" and "10 ^ k < x ^ n" and "0 < n"
  shows "real k / real n < log 10 x"
proof -
  have "log 10 (10 ^ k) < log 10 (x ^ n)"
    using assms by (subst log_less_cancel_iff) simp_all
  moreover have "log 10 (x ^ n) = real n * log 10 x"
    using assms by (simp add: log_nat_power)
  moreover have "log 10 ((10::real) ^ k) = real k"
    by (simp add: log_nat_power)
  ultimately have "real k < real n * log 10 x" by simp
  with \<open>0 < n\<close> show ?thesis by (simp add: pos_divide_less_eq mult.commute)
qed

lemma log10_3_bounds: "52 / 109 < log 10 (3::real)" "log 10 (3::real) < 73 / 153"
proof -
  show "52 / 109 < log 10 (3::real)"
    using log10_power_greater [of 3 52 109] by simp
  show "log 10 (3::real) < 73 / 153"
    using log10_power_less [of 3 153 73] by simp
qed

lemma log10_3_approx: "4770 / 10000 < log 10 (3::real)" "log 10 (3::real) < 4772 / 10000"
  using log10_3_bounds by simp_all

subsection \<open>The guided quasi-random cell\<close>

lemma steps_2:
  assumes "gather results d t ''guided'' False = Inr ref"
    and "gather results d t ''guided'' True = Inr es"
  shows "steps results d t 2 st =
     Inr (st\<lparr>est := Some es, base_mean := Some (np_mean ref), base_mse := Some (np_var ref),
        mse := Some (sq_error ref es), log10_gain := Some (gain_of ref es),
        results_mse := results_mse st @
          [\<lparr>row_fk = ''guided'', row_dim = d, row_qmc = True, row_t = t,
            row_log10_gain = gain_of ref es\<rparr>]\<rparr>)"
  using assms
  by (simp add: steps_def categories_eq numeral_2_eq_2 cell_body_ref cell_body_other
      sq_error_def gain_of_def)

lemma np_mean_1113: "np_mean [Fin 1, Fin 1, Fin 1, Fin 3] = Fin (3 / 2)"
  by (simp add: np_mean_def np_sum_def)

lemma steps_2_scenario:
  "steps scenario 5 0 2 unbound =
     Inr \<lparr>est = Some [Fin 2, Fin 2, Fin 2, Fin 2], base_mean = Some (Fin (3 / 2)),
       base_mse = Some (Fin (3 / 4)), mse = Some (Fin (1 / 4)),
       log10_gain = Some (Fin (log 10 3)),
       results_mse = [\<lparr>row_fk = ''guided'', row_dim = 5, row_qmc = True, row_t = 0,
         row_log10_gain = Fin (log 10 3)\<rparr>]\<rparr>"
  by (simp add: steps_2 [OF gather_scenario(1,2)] unbound_def np_mean_1113 np_var_1113
      sq_error_1113_2222 gain_of_scenario)

lemma log10_9_4: "log 10 ((9 / 4) :: real) < 36 / 100"
  using log10_power_less [of "9 / 4" 25 9] by (simp add: power_divide)


lemma steps_Suc_baseline:
  assumes "list_all (complete h) results" and "t < h" and "0 < k" and "k < 4"
  shows "\<exists>s. steps results d t (Suc k) st = Inr s \<and>
      base_mean s = Some (np_mean (sample results d t ''guided'' False)) \<and>
      base_mse s = Some (np_var (sample results d t ''guided'' False)) \<and>
      mse s = Some (sq_error (sample results d t ''guided'' False)
         (sample results d t (fst (categories ! k)) (snd (categories ! k)))) \<and>
      log10_gain s = Some (gain_of (sample results d t ''guided'' False)
         (sample results d t (fst (categories ! k)) (snd (categories ! k)))) \<and>
      results_mse s \<noteq> [] \<and>
      last (results_mse s) =
        \<lparr>row_fk = fst (categories ! k), row_dim = d, row_qmc = snd (categories ! k), row_t = t,
          row_log10_gain = gain_of (sample results d t ''guided'' False)
            (sample results d t (fst (categories ! k)) (snd (categories ! k)))\<rparr>"
proof -
  from assms(4) have le: "Suc k \<le> 4" by simp
  from steps_complete [OF assms(1,2) le] obtain s where
    s: "steps results d t (Suc k) st = Inr s" by blast
  from steps_cell [OF assms(3,4) s] obtain ref es s0 where
    g: "gather results d t ''guided'' False = Inr ref"
      "gather results d t (fst (categories ! k)) (snd (categories ! k)) = Inr es"
    and s0: "s = s0\<lparr>est := Some es, mse := Some (sq_error ref es),
            log10_gain := Some (gain_of ref es),
            results_mse := results_mse s0 @
              [\<lparr>row_fk = fst (categories ! k), row_dim = d, row_qmc = snd (categories ! k),
                row_t = t, row_log10_gain = gain_of ref es\<rparr>]\<rparr>"
    by blast
  from steps_baseline [OF _ le s] g(1) have
    b: "base_mean s = Some (np_mean ref)" "base_mse s = Some (np_var ref)" by auto
  have sm: "sample results d t ''guided'' False = ref"
    "sample results d t (fst (categories ! k)) (snd (categories ! k)) = es"
    using g by (simp_all add: sample_gather)
  have "mse s = Some (sq_error ref es)" "log10_gain s = Some (gain_of ref es)"
    "results_mse s \<noteq> []"
    "last (results_mse s) =
        \<lparr>row_fk = fst (categories ! k), row_dim = d, row_qmc = snd (categories ! k), row_t = t,
          row_log10_gain = gain_of ref es\<rparr>"
    by (simp_all add: s0)
  with s b show ?thesis unfolding sm by blast
qed

subsection \<open>Degenerate samples\<close>

lemma np_add_NaN: "np_add a NaN = NaN"
  by (cases a) simp_all

lemma np_var_Nil: "np_var [] = NaN"
  by (simp add: np_var_def np_sum_def)

lemma sq_error_Nil: "sq_error ref [] = NaN"
  by (simp add: sq_error_def np_mean_Nil)

lemma gain_of_no_reference: "gain_of [] es = NaN"
  by (simp add: gain_of_def np_var_Nil np_add_NaN)

lemma grid_single: "grid [d] (Suc 0) results = cells results d 0"
  by (simp add: grid_def)

lemma make_table_complete:
  assumes "list_all (complete h) results"
  shows "make_table ds h results st = build_table (grid ds h results)"
proof -
  from format_results_complete [OF assms] obtain st'
    where run: "format_results ds h results st = Inr st'" by blast
  from format_results_Inr [OF run] run show ?thesis by (simp add: make_table_def)
qed

lemma sample_population:
  "sample (population ref other) 5 0 ''guided'' False = map Fin ref"
  "sample (population ref other) 5 0 ''guided'' True = map Fin other"
  "sample (population ref other) 5 0 ''boot'' False = map Fin other"
  "sample (population ref other) 5 0 ''boot'' True = map Fin other"
  by (simp_all add: sample_def gather_population)

lemma stats_11:
  "np_mean [Fin 1, Fin 1] = Fin 1" "np_var [Fin 1, Fin 1] = Fin 0"
  "sq_error [Fin 1, Fin 1] [Fin 2, Fin 2] = Fin 1"
  "sq_error [Fin 1, Fin 1] [Fin 1, Fin 1] = Fin 0"
  "gain_of [Fin 1, Fin 1] [Fin 2, Fin 2] = NInf"
  "gain_of [Fin 1, Fin 1] [Fin 1, Fin 1] = NaN"
  by (simp_all add: gain_of_def sq_error_def np_var_def np_mean_def np_sum_def np_sub_def
      np_square_def)

lemma stats_13:
  "np_mean [Fin 1, Fin 3] = Fin 2" "np_var [Fin 1, Fin 3] = Fin 1"
  "sq_error [Fin 1, Fin 3] [Fin 2, Fin 2] = Fin 0"
  "gain_of [Fin 1, Fin 3] [Fin 2, Fin 2] = PInf"
  by (simp_all add: gain_of_def sq_error_def np_var_def np_mean_def np_sum_def np_sub_def
      np_square_def)

lemma make_table_population:
  "make_table [5] 1 (population ref other) st =
     Inr (map label (cells (population ref other) 5 0))"
proof -
  have "make_table [5] 1 (population ref other) st =
      build_table (grid [5] 1 (population ref other))"
    by (rule make_table_complete [OF complete_population])
  then show ?thesis by (simp add: grid_single build_table_def cells_def)
qed

lemma table_flat_reference:
  "make_table [5] 1 flat_reference st =
     Inr [\<lparr>row_fk = ''guided'', row_dim = 5, row_qmc = True, row_t = 0,
            row_log10_gain = NInf, fk_qmc = ''guided SQMC''\<rparr>,
          \<lparr>row_fk = ''boot'', row_dim = 5, row_qmc = False, row_t = 0,
            row_log10_gain = NInf, fk_qmc = ''boot SMC''\<rparr>,
          \<lparr>row_fk = ''boot'', row_dim = 5, row_qmc = True, row_t = 0,
            row_log10_gain = NInf, fk_qmc = ''boot SQMC''\<rparr>]"
  unfolding flat_reference_def make_table_population
  by (simp add: cells_def cell_row_def sample_population stats_11 label_def)

lemma table_exact_category:
  "make_table [5] 1 exact_category st =
     Inr [\<lparr>row_fk = ''guided'', row_dim = 5, row_qmc = True, row_t = 0,
            row_log10_gain = PInf, fk_qmc = ''guided SQMC''\<rparr>,
          \<lparr>row_fk = ''boot'', row_dim = 5, row_qmc = False, row_t = 0,
            row_log10_gain = PInf, fk_qmc = ''boot SMC''\<rparr>,
          \<lparr>row_fk = ''boot'', row_dim = 5, row_qmc = True, row_t = 0,
            row_log10_gain = PInf, fk_qmc = ''boot SQMC''\<rparr>]"
  unfolding exact_category_def make_table_population
  by (simp add: cells_def cell_row_def sample_population stats_13 label_def)

lemma table_same_flat:
  "make_table [5] 1 same_flat st =
     Inr [\<lparr>row_fk = ''guided'', row_dim = 5, row_qmc = True, row_t = 0,
            row_log10_gain = NaN, fk_qmc = ''guided SQMC''\<rparr>,
          \<lparr>row_fk = ''boot'', row_dim = 5, row_qmc = False, row_t = 0,
            row_log10_gain = NaN, fk_qmc = ''boot SMC''\<rparr>,
          \<lparr>row_fk = ''boot'', row_dim = 5, row_qmc = True, row_t = 0,
            row_log10_gain = NaN, fk_qmc = ''boot SQMC''\<rparr>]"
  unfolding same_flat_def make_table_population
  by (simp add: cells_def cell_row_def sample_population stats_11 label_def)

lemma table_scenario:
  "make_table [5] 1 scenario st =
     Inr [\<lparr>row_fk = ''guided'', row_dim = 5, row_qmc = True, row_t = 0,
            row_log10_gain = Fin (log 10 3), fk_qmc = ''guided SQMC''\<rparr>,
          \<lparr>row_fk = ''boot'', row_dim = 5, row_qmc = False, row_t = 0,
            row_log10_gain = NaN, fk_qmc = ''boot SMC''\<rparr>,
          \<lparr>row_fk = ''boot'', row_dim = 5, row_qmc = True, row_t = 0,
            row_log10_gain = NaN, fk_qmc = ''boot SQMC''\<rparr>]"
proof -
  have "make_table [5] 1 scenario st = build_table (grid [5] 1 scenario)"
    by (rule make_table_complete [OF complete_scenario])
  then show ?thesis by (simp add: grid_single build_table_def cells_scenario label_def)
qed

lemma steps_2_flat_reference:
  "steps flat_reference 5 0 2 unbound =
     Inr \<lparr>est = Some [Fin 2, Fin 2], base_mean = Some (Fin 1), base_mse = Some (Fin 0),
       mse = Some (Fin 1), log10_gain = Some NInf,
       results_mse = [\<lparr>row_fk = ''guided'', row_dim = 5, row_qmc = True, row_t = 0,
         row_log10_gain = NInf\<rparr>]\<rparr>"
  unfolding flat_reference_def
  by (simp add: steps_2 [OF gather_population(1,2)] unbound_def stats_11)

lemma steps_2_exact_category:
  "steps exact_category 5 0 2 unbound =
     Inr \<lparr>est = Some [Fin 2, Fin 2], base_mean = Some (Fin 2), base_mse = Some (Fin 1),
       mse = Some (Fin 0), log10_gain = Some PInf,
       results_mse = [\<lparr>row_fk = ''guided'', row_dim = 5, row_qmc = True, row_t = 0,
         row_log10_gain = PInf\<rparr>]\<rparr>"
  unfolding exact_category_def
  by (simp add: steps_2 [OF gather_population(1,2)] unbound_def stats_13)

lemma steps_2_same_flat:
  "steps same_flat 5 0 2 unbound =
     Inr \<lparr>est = Some [Fin 1, Fin 1], base_mean = Some (Fin 1), base_mse = Some (Fin 0),
       mse = Some (Fin 0), log10_gain = Some NaN,
       results_mse = [\<lparr>row_fk = ''guided'', row_dim = 5, row_qmc = True, row_t = 0,
         row_log10_gain = NaN\<rparr>]\<rparr>"
  unfolding same_flat_def
  by (simp add: steps_2 [OF gather_population(1,2)] unbound_def stats_11)


subsection \<open>A cell within the whole run\<close>

lemma fk_loop_split:
  assumes "k \<le> 4"
  shows "fk_loop results d t st =
     (case steps results d t k st of
        Inl e \<Rightarrow> Inl e
      | Inr s \<Rightarrow> for_each (\<lambda>c. cell_body results d t (fst c) (snd c)) (drop k categories) s)"
proof -
  let ?body = "\<lambda>c. cell_body results d t (fst c) (snd c)"
  have "fk_loop results d t st = for_each ?body categories st"
    by (simp add: fk_loop_steps steps_def categories_eq)
  also have "\<dots> = for_each ?body (take k categories @ drop k categories) st"
    by simp
  also have "\<dots> = (case steps results d t k st of
        Inl e \<Rightarrow> Inl e
      | Inr s \<Rightarrow> for_each ?body (drop k categories) s)"
    by (simp only: for_each_append steps_def)
  finally show ?thesis .
qed

lemma upt_split: "t < h \<Longrightarrow> [0..<h] = [0..<t] @ t # [Suc t..<h]"
proof -
  assume "t < h"
  then have "[0..<h] = [0..<t] @ [t..<h]"
    by (metis le_add_diff_inverse less_imp_le upt_add_eq_append zero_le)
  with \<open>t < h\<close> show ?thesis by (simp add: upt_conv_Cons)
qed

lemma t_loop_split:
  assumes "t < h"
  shows "t_loop h results d st =
     (case t_loop t results d st of
        Inl e \<Rightarrow> Inl e
      | Inr sb \<Rightarrow>
          (case fk_loop results d t sb of
             Inl e \<Rightarrow> Inl e
           | Inr sc \<Rightarrow> for_each (fk_loop results d) [Suc t..<h] sc))"
  by (simp add: t_loop_def upt_split [OF assms] for_each_append del: upt_Suc split: sum.splits)

lemma format_results_split:
  "format_results (ds1 @ d # ds2) h results st0 =
     (case format_results ds1 h results st0 of
        Inl e \<Rightarrow> Inl e
      | Inr sa \<Rightarrow>
          (case t_loop h results d sa of
             Inl e \<Rightarrow> Inl e
           | Inr sd \<Rightarrow> for_each (t_loop h results) ds2 sd))"
  by (simp add: format_results_def for_each_append split: sum.splits)

lemma t_loop_before_complete:
  assumes "list_all (complete h) results" and "t \<le> h"
  shows "\<exists>st'. t_loop t results d st = Inr st'"
  unfolding t_loop_def
  by (rule for_each_total) (use assms in \<open>auto intro: fk_loop_complete\<close>)

lemma cell_row_in_grid:
  assumes "d \<in> set ds" and "t < h" and "0 < k" and "k < 4"
  shows "cell_row results d t (fst (categories ! k)) (snd (categories ! k))
     \<in> set (grid ds h results)"
proof -
  from assms(3,4) have "k = 1 \<or> k = 2 \<or> k = 3" by arith
  then have "cell_row results d t (fst (categories ! k)) (snd (categories ! k))
      \<in> set (cells results d t)"
    by (auto simp add: categories_eq cells_def)
  with assms(1,2) show ?thesis
    by (auto simp add: grid_def intro!: bexI [where x = d] bexI [where x = t])
qed

lemma cell_in_run:
  assumes "list_all (complete h) results" and "t < h" and "0 < k" and "k < 4"
  shows "\<exists>sa sb s sc sd st'.
      format_results ds1 h results st0 = Inr sa \<and>
      t_loop t results d sa = Inr sb \<and>
      steps results d t (Suc k) sb = Inr s \<and>
      for_each (\<lambda>c. cell_body results d t (fst c) (snd c)) (drop (Suc k) categories) s = Inr sc \<and>
      fk_loop results d t sb = Inr sc \<and>
      for_each (fk_loop results d) [Suc t..<h] sc = Inr sd \<and>
      for_each (t_loop h results) ds2 sd = Inr st' \<and>
      format_results (ds1 @ d # ds2) h results st0 = Inr st' \<and>
      results_mse st' = grid (ds1 @ d # ds2) h results \<and>
      base_mean s = Some (np_mean (sample results d t ''guided'' False)) \<and>
      base_mse s = Some (np_var (sample results d t ''guided'' False)) \<and>
      mse s = Some (sq_error (sample results d t ''guided'' False)
         (sample results d t (fst (categories ! k)) (snd (categories ! k)))) \<and>
      log10_gain s = Some (gain_of (sample results d t ''guided'' False)
         (sample results d t (fst (categories ! k)) (snd (categories ! k)))) \<and>
      results_mse s \<noteq> [] \<and>
      last (results_mse s) =
        \<lparr>row_fk = fst (categories ! k), row_dim = d, row_qmc = snd (categories ! k), row_t = t,
          row_log10_gain = gain_of (sample results d t ''guided'' False)
            (sample results d t (fst (categories ! k)) (snd (categories ! k)))\<rparr> \<and>
      last (results_mse s) \<in> set (results_mse st')"
proof -
  from format_results_complete [OF assms(1)] obtain sa where
    sa: "format_results ds1 h results st0 = Inr sa" by blast
  from t_loop_before_complete [OF assms(1)] assms(2) obtain sb where
    sb: "t_loop t results d sa = Inr sb" by (meson less_imp_le)
  from steps_Suc_baseline [OF assms, of d sb] obtain s where
    s: "steps results d t (Suc k) sb = Inr s"
    and b: "base_mean s = Some (np_mean (sample results d t ''guided'' False))"
      "base_mse s = Some (np_var (sample results d t ''guided'' False))"
    and m: "mse s = Some (sq_error (sample results d t ''guided'' False)
         (sample results d t (fst (categories ! k)) (snd (categories ! k))))"
    and g: "log10_gain s = Some (gain_of (sample results d t ''guided'' False)
         (sample results d t (fst (categories ! k)) (snd (categories ! k))))"
    and r: "results_mse s \<noteq> []"
      "last (results_mse s) =
        \<lparr>row_fk = fst (categories ! k), row_dim = d, row_qmc = snd (categories ! k), row_t = t,
          row_log10_gain = gain_of (sample results d t ''guided'' False)
            (sample results d t (fst (categories ! k)) (snd (categories ! k)))\<rparr>"
    by blast
  from format_results_complete [OF assms(1)] obtain st' where
    st': "format_results (ds1 @ d # ds2) h results st0 = Inr st'" by blast
  have grid: "results_mse st' = grid (ds1 @ d # ds2) h results"
    using st' by (rule format_results_Inr)
  from st' sa obtain sd where sd: "t_loop h results d sa = Inr sd"
    and rest: "for_each (t_loop h results) ds2 sd = Inr st'"
    by (auto simp add: format_results_split split: sum.splits)
  from sd sb obtain sc where sc: "fk_loop results d t sb = Inr sc"
    and rest_t: "for_each (fk_loop results d) [Suc t..<h] sc = Inr sd"
    by (auto simp add: t_loop_split [OF assms(2)] split: sum.splits)
  from assms(4) have "Suc k \<le> 4" by simp
  from fk_loop_split [OF this, of results d t sb] s sc have
    tail: "for_each (\<lambda>c. cell_body results d t (fst c) (snd c)) (drop (Suc k) categories) s
      = Inr sc"
    by simp
  have "last (results_mse s) = cell_row results d t (fst (categories ! k)) (snd (categories ! k))"
    by (simp add: r(2) cell_row_def)
  moreover have "d \<in> set (ds1 @ d # ds2)" by simp
  ultimately have mem: "last (results_mse s) \<in> set (results_mse st')"
    using cell_row_in_grid [OF _ assms(2,3,4)] grid by metis
  from sa sb s tail sc rest_t rest st' grid b m g r mem show ?thesis by blast
qed


lemma fk_loop_result:
  assumes "gather results d t ''guided'' False = Inr e1"
    and "gather results d t ''guided'' True = Inr e2"
    and "gather results d t ''boot'' False = Inr e3"
    and "gather results d t ''boot'' True = Inr e4"
  shows "fk_loop results d t st =
     Inr (st\<lparr>est := Some e4, base_mean := Some (np_mean e1), base_mse := Some (np_var e1),
        mse := Some (sq_error e1 e4), log10_gain := Some (gain_of e1 e4),
        results_mse := results_mse st @
          [\<lparr>row_fk = ''guided'', row_dim = d, row_qmc = True, row_t = t,
             row_log10_gain = gain_of e1 e2\<rparr>,
           \<lparr>row_fk = ''boot'', row_dim = d, row_qmc = False, row_t = t,
             row_log10_gain = gain_of e1 e3\<rparr>,
           \<lparr>row_fk = ''boot'', row_dim = d, row_qmc = True, row_t = t,
             row_log10_gain = gain_of e1 e4\<rparr>]\<rparr>)"
  using assms
  by (simp add: fk_loop_def qmc_loop_def cell_body_ref cell_body_other sq_error_def gain_of_def)

lemma format_results_single:
  "format_results [d] (Suc 0) results st = fk_loop results d 0 (st\<lparr>results_mse := []\<rparr>)"
  by (simp add: format_results_def t_loop_def split: sum.splits)

lemma format_results_scenario:
  "format_results [5] 1 scenario unbound =
     Inr \<lparr>est = Some [], base_mean = Some (Fin (3 / 2)), base_mse = Some (Fin (3 / 4)),
       mse = Some NaN, log10_gain = Some NaN,
       results_mse =
         [\<lparr>row_fk = ''guided'', row_dim = 5, row_qmc = True, row_t = 0,
            row_log10_gain = Fin (log 10 3)\<rparr>,
          \<lparr>row_fk = ''boot'', row_dim = 5, row_qmc = False, row_t = 0, row_log10_gain = NaN\<rparr>,
          \<lparr>row_fk = ''boot'', row_dim = 5, row_qmc = True, row_t = 0, row_log10_gain = NaN\<rparr>]\<rparr>"
  by (simp add: format_results_single fk_loop_result [OF gather_scenario] unbound_def
      np_mean_1113 np_var_1113 sq_error_Nil gain_of_scenario gain_of_empty)

lemma entry_first_cell:
  assumes "format_results [] h results unbound = Inr sa" and "t_loop 0 results d sa = Inr sb"
  shows "sb = unbound"
  using assms by (auto simp add: format_results_def t_loop_def unbound_def)

lemma gain_quarter:
  "np_add (np_neg (np_log10 (Fin (1 / 4)))) (np_log10 (Fin (3 / 4))) = Fin (log 10 3)"
  using gain_of_scenario unfolding gain_of_def np_var_1113 sq_error_1113_2222 .

lemma length_cells: "length (cells results d t) = 3"
  by (simp add: cells_def)

lemma length_row: "length (concat (map (cells results d) ts)) = length ts * 3"
  by (induction ts) (simp_all add: length_cells)

lemma length_grid: "length (grid ds h results) = length ds * h * 3"
  by (induction ds) (simp_all add: grid_def length_row algebra_simps)

text \<open>
  C1: in the run of the aggregator over the dimensions \<open>ds1 @ d # ds2\<close>, let \<open>sa\<close> be the
  state after the dimensions before \<open>d\<close> and \<open>sb\<close> the state after the time steps before
  \<open>t\<close>, in which the two inner loops start at \<open>(d, t)\<close>. For each of the three categories
  other than the reference (the categories at positions 1, 2 and 3 of the visiting
  order) the inner loops run up to that category, reach a state \<open>s\<close>, and go on from
  \<open>s\<close> with the remaining categories. In \<open>s\<close> the variable \<^verbatim>\<open>mse\<close> is the mean, over the
  estimates of the category, of the squared deviation from the mean of the reference
  estimates: on finite non-empty samples the real number \<open>mean_sq_dev (mean xs) ys\<close>,
  where \<open>xs\<close> are the reference estimates and \<open>ys\<close> those of the category, so the centre
  is the mean of the reference sample and not that of \<open>ys\<close>. The row of the cell in the
  list the aggregator returns carries the gain computed from that \<^verbatim>\<open>mse\<close>.
\<close>

theorem mse_is_deviation_from_reference_mean:
  assumes "list_all (complete h) results" and "t < h" and "0 < k" and "k < 4"
  shows "\<exists>sa sb s st' m bv.
      format_results ds1 h results st0 = Inr sa \<and>
      t_loop t results d sa = Inr sb \<and>
      steps results d t (Suc k) sb = Inr s \<and>
      fk_loop results d t sb =
        for_each (\<lambda>c. cell_body results d t (fst c) (snd c)) (drop (Suc k) categories) s \<and>
      format_results (ds1 @ d # ds2) h results st0 = Inr st' \<and>
      mse s = Some m \<and> base_mse s = Some bv \<and>
      m = np_mean (map (\<lambda>e. np_square (np_sub e
                (np_mean (sample results d t ''guided'' False))))
              (sample results d t (fst (categories ! k)) (snd (categories ! k)))) \<and>
      (\<forall>xs ys. xs \<noteq> [] \<longrightarrow> ys \<noteq> [] \<longrightarrow>
          sample results d t ''guided'' False = map Fin xs \<longrightarrow>
          sample results d t (fst (categories ! k)) (snd (categories ! k)) = map Fin ys \<longrightarrow>
          m = Fin (mean_sq_dev (mean xs) ys)) \<and>
      \<lparr>row_fk = fst (categories ! k), row_dim = d, row_qmc = snd (categories ! k), row_t = t,
        row_log10_gain = np_add (np_neg (np_log10 m)) (np_log10 bv)\<rparr>
        \<in> set (results_mse st')"
proof -
  let ?ref = "sample results d t ''guided'' False"
  let ?es = "sample results d t (fst (categories ! k)) (snd (categories ! k))"
  from cell_in_run [OF assms, of ds1 st0 d ds2] obtain sa sb s sc st' where
    run: "format_results ds1 h results st0 = Inr sa" "t_loop t results d sa = Inr sb"
      "steps results d t (Suc k) sb = Inr s"
      "for_each (\<lambda>c. cell_body results d t (fst c) (snd c)) (drop (Suc k) categories) s = Inr sc"
      "fk_loop results d t sb = Inr sc"
      "format_results (ds1 @ d # ds2) h results st0 = Inr st'"
    and b: "base_mse s = Some (np_var ?ref)"
    and m: "mse s = Some (sq_error ?ref ?es)"
    and r: "last (results_mse s) =
        \<lparr>row_fk = fst (categories ! k), row_dim = d, row_qmc = snd (categories ! k), row_t = t,
          row_log10_gain = gain_of ?ref ?es\<rparr>"
      "last (results_mse s) \<in> set (results_mse st')"
    by blast
  have tie: "fk_loop results d t sb =
      for_each (\<lambda>c. cell_body results d t (fst c) (snd c)) (drop (Suc k) categories) s"
    using run(4,5) by simp
  have 1: "sq_error ?ref ?es = np_mean (map (\<lambda>e. np_square (np_sub e (np_mean ?ref))) ?es)"
    by (simp add: sq_error_def)
  have 2: "\<forall>xs ys. xs \<noteq> [] \<longrightarrow> ys \<noteq> [] \<longrightarrow> ?ref = map Fin xs \<longrightarrow> ?es = map Fin ys \<longrightarrow>
      sq_error ?ref ?es = Fin (mean_sq_dev (mean xs) ys)"
    by (simp add: sq_error_Fin)
  have 3: "\<lparr>row_fk = fst (categories ! k), row_dim = d, row_qmc = snd (categories ! k),
        row_t = t, row_log10_gain =
          np_add (np_neg (np_log10 (sq_error ?ref ?es))) (np_log10 (np_var ?ref))\<rparr>
        \<in> set (results_mse st')"
    using r by (simp add: gain_of_def)
  from run(1,2,3) tie run(6) m b 1 2 3 show ?thesis by blast
qed

theorem mse_is_deviation_from_reference_mean_witness:
  "list_all (complete 1) scenario \<and> (0::nat) < 1 \<and> (1::nat) < 4 \<and>
   (\<exists>s st'. steps scenario 5 0 2 unbound = Inr s \<and> mse s = Some (Fin (1 / 4)) \<and>
      fk_loop scenario 5 0 unbound =
        for_each (\<lambda>c. cell_body scenario 5 0 (fst c) (snd c)) (drop 2 categories) s \<and>
      format_results [5] 1 scenario unbound = Inr st' \<and>
      \<lparr>row_fk = ''guided'', row_dim = 5, row_qmc = True, row_t = 0,
        row_log10_gain = Fin (log 10 3)\<rparr> \<in> set (results_mse st')) \<and>
   mean_sq_dev (mean [1, 1, 1, 3]) [2, 2, 2, 2] = 1 / 4 \<and>
   mean_sq_dev (mean [2, 2, 2, 2]) [2, 2, 2, 2] = 0"
proof -
  have c: "categories ! Suc 0 = (''guided'', True)" by (simp add: categories_eq)
  have k: "(0::nat) < Suc 0" "Suc 0 < 4" "(0::nat) < 1" by simp_all
  have two: "Suc (Suc 0) = 2" by simp
  from mse_is_deviation_from_reference_mean [OF complete_scenario k(3) k(1,2),
      of "[]" unbound 5 "[]"]
  obtain sa sb s st' m bv where
    e: "format_results [] 1 scenario unbound = Inr sa" "t_loop 0 scenario 5 sa = Inr sb"
    and s: "steps scenario 5 0 2 sb = Inr s"
    and tie: "fk_loop scenario 5 0 sb =
        for_each (\<lambda>c. cell_body scenario 5 0 (fst c) (snd c)) (drop 2 categories) s"
    and f: "format_results [5] 1 scenario unbound = Inr st'"
    and v: "mse s = Some m" "base_mse s = Some bv"
    and a: "\<forall>xs ys. xs \<noteq> [] \<longrightarrow> ys \<noteq> [] \<longrightarrow>
          sample scenario 5 0 ''guided'' False = map Fin xs \<longrightarrow>
          sample scenario 5 0 (fst (categories ! Suc 0)) (snd (categories ! Suc 0)) = map Fin ys \<longrightarrow>
          m = Fin (mean_sq_dev (mean xs) ys)"
    and r: "\<lparr>row_fk = fst (categories ! Suc 0), row_dim = 5, row_qmc = snd (categories ! Suc 0),
        row_t = 0, row_log10_gain = np_add (np_neg (np_log10 m)) (np_log10 bv)\<rparr>
        \<in> set (results_mse st')"
    unfolding two append_Nil by blast
  have sb: "sb = unbound" using e by (rule entry_first_cell)
  have q: "mean_sq_dev (mean [1, 1, 1, 3]) [2, 2, 2, 2] = 1 / 4"
    by (simp add: mean_sq_dev_def mean_def power2_eq_square)
  have z: "mean_sq_dev (mean [2, 2, 2, 2]) [2, 2, 2, 2] = 0"
    by (simp add: mean_sq_dev_def mean_def)
  have m: "m = Fin (1 / 4)"
    using a [rule_format, of "[1, 1, 1, 3]" "[2, 2, 2, 2]"] q by (simp add: c sample_scenario)
  have bv: "bv = Fin (3 / 4)"
    using s v(2) unfolding sb by (auto simp add: steps_2_scenario)
  have row: "\<lparr>row_fk = ''guided'', row_dim = 5, row_qmc = True, row_t = 0,
        row_log10_gain = Fin (log 10 3)\<rparr> \<in> set (results_mse st')"
    using r unfolding m bv gain_quarter c by simp
  from s tie f v(1) row q z complete_scenario show ?thesis
    unfolding sb m by (intro conjI exI [of _ s] exI [of _ st']) simp_all
qed


text \<open>
  C2, as stated, at the reference estimates 1, 1, 1, 3 and the guided quasi-random
  estimates 2, 2, 2, 2 at dimension 5 and time 0. The aggregator returns with
  \<^verbatim>\<open>base_mean\<close> 1.5 as stated, but with \<^verbatim>\<open>base_mse\<close> 0.75, not 0.5625, and the row of
  the cell carries the gain \<open>log10 3\<close>, which is above 0.477, whereas
  \<open>log10 (0.5625 / 0.25)\<close> is below 0.36. The inner loops reach the cell in a state where
  \<^verbatim>\<open>mse\<close> is 0.25, as stated, and go on from that state.
\<close>

theorem example_gain_not_as_stated:
  "format_results [5] 1 scenario unbound =
     Inr \<lparr>est = Some [], base_mean = Some (Fin (3 / 2)), base_mse = Some (Fin (3 / 4)),
       mse = Some NaN, log10_gain = Some NaN,
       results_mse =
         [\<lparr>row_fk = ''guided'', row_dim = 5, row_qmc = True, row_t = 0,
            row_log10_gain = Fin (log 10 3)\<rparr>,
          \<lparr>row_fk = ''boot'', row_dim = 5, row_qmc = False, row_t = 0, row_log10_gain = NaN\<rparr>,
          \<lparr>row_fk = ''boot'', row_dim = 5, row_qmc = True, row_t = 0, row_log10_gain = NaN\<rparr>]\<rparr> \<and>
   make_table [5] 1 scenario unbound =
     Inr [\<lparr>row_fk = ''guided'', row_dim = 5, row_qmc = True, row_t = 0,
            row_log10_gain = Fin (log 10 3), fk_qmc = ''guided SQMC''\<rparr>,
          \<lparr>row_fk = ''boot'', row_dim = 5, row_qmc = False, row_t = 0,
            row_log10_gain = NaN, fk_qmc = ''boot SMC''\<rparr>,
          \<lparr>row_fk = ''boot'', row_dim = 5, row_qmc = True, row_t = 0,
            row_log10_gain = NaN, fk_qmc = ''boot SQMC''\<rparr>] \<and>
   steps scenario 5 0 2 unbound =
     Inr \<lparr>est = Some [Fin 2, Fin 2, Fin 2, Fin 2], base_mean = Some (Fin (3 / 2)),
       base_mse = Some (Fin (3 / 4)), mse = Some (Fin (1 / 4)),
       log10_gain = Some (Fin (log 10 3)),
       results_mse = [\<lparr>row_fk = ''guided'', row_dim = 5, row_qmc = True, row_t = 0,
         row_log10_gain = Fin (log 10 3)\<rparr>]\<rparr> \<and>
   fk_loop scenario 5 0 unbound =
     for_each (\<lambda>c. cell_body scenario 5 0 (fst c) (snd c)) (drop 2 categories)
       \<lparr>est = Some [Fin 2, Fin 2, Fin 2, Fin 2], base_mean = Some (Fin (3 / 2)),
         base_mse = Some (Fin (3 / 4)), mse = Some (Fin (1 / 4)),
         log10_gain = Some (Fin (log 10 3)),
         results_mse = [\<lparr>row_fk = ''guided'', row_dim = 5, row_qmc = True, row_t = 0,
           row_log10_gain = Fin (log 10 3)\<rparr>]\<rparr> \<and>
   Fin (3 / 4) \<noteq> Fin 0.5625 \<and>
   log 10 (0.5625 / 0.25) < (0.36 :: real) \<and> (0.477 :: real) < log 10 3 \<and>
   Fin (log 10 3) \<noteq> Fin (log 10 (0.5625 / 0.25))"
proof -
  have a: "(477 / 1000 :: real) < log 10 3" using log10_3_approx(1) by simp
  from a log10_9_4 have n: "log 10 3 \<noteq> log 10 (9 / 4 :: real)" by linarith
  have le: "(2::nat) \<le> 4" by simp
  have tie: "fk_loop scenario 5 0 unbound =
     for_each (\<lambda>c. cell_body scenario 5 0 (fst c) (snd c)) (drop 2 categories)
       \<lparr>est = Some [Fin 2, Fin 2, Fin 2, Fin 2], base_mean = Some (Fin (3 / 2)),
         base_mse = Some (Fin (3 / 4)), mse = Some (Fin (1 / 4)),
         log10_gain = Some (Fin (log 10 3)),
         results_mse = [\<lparr>row_fk = ''guided'', row_dim = 5, row_qmc = True, row_t = 0,
           row_log10_gain = Fin (log 10 3)\<rparr>]\<rparr>"
    unfolding fk_loop_split [OF le, of scenario 5 0 unbound] steps_2_scenario by simp
  have num: "Fin (3 / 4) \<noteq> Fin 0.5625 \<and>
     log 10 (0.5625 / 0.25) < (0.36 :: real) \<and> (0.477 :: real) < log 10 3 \<and>
     Fin (log 10 3) \<noteq> Fin (log 10 (0.5625 / 0.25))"
    using a n log10_9_4 by simp
  from format_results_scenario table_scenario [of unbound] steps_2_scenario tie num
  show ?thesis by (intro conjI) (simp_all only: simp_thms)
qed


text \<open>
  C2, amended. In the run of the aggregator over the dimensions \<open>ds1 @ d # ds2\<close>, with
  \<open>sa\<close> the state after the dimensions before \<open>d\<close> and \<open>sb\<close> the state after the time
  steps before \<open>t\<close>, the inner loops reach each category other than the reference in a
  state \<open>s\<close> and go on from it. The row emitted there, which is a row of the list the
  aggregator returns, carries \<open>- log10 mse + log10 base_mse\<close> for the values of \<^verbatim>\<open>mse\<close>
  and \<^verbatim>\<open>base_mse\<close> in \<open>s\<close>; when both are finite and positive that is
  \<open>log10 (base_mse / mse)\<close>. In particular, where the reference estimates are
  1, 1, 1, 3 and those of the cell are 2, 2, 2, 2, \<^verbatim>\<open>base_mean\<close> is 1.5, \<^verbatim>\<open>base_mse\<close> is
  0.75, \<^verbatim>\<open>mse\<close> is 0.25 and the gain is \<open>log10 (0.75 / 0.25) = log10 3\<close>, which lies
  between 0.4770 and 0.4772.
\<close>

theorem gain_formula:
  assumes "list_all (complete h) results" and "t < h" and "0 < k" and "k < 4"
  shows "\<exists>sa sb s st' m bv.
      format_results ds1 h results st0 = Inr sa \<and>
      t_loop t results d sa = Inr sb \<and>
      steps results d t (Suc k) sb = Inr s \<and>
      fk_loop results d t sb =
        for_each (\<lambda>c. cell_body results d t (fst c) (snd c)) (drop (Suc k) categories) s \<and>
      format_results (ds1 @ d # ds2) h results st0 = Inr st' \<and>
      mse s = Some m \<and> base_mse s = Some bv \<and>
      log10_gain s = Some (np_add (np_neg (np_log10 m)) (np_log10 bv)) \<and>
      results_mse s \<noteq> [] \<and>
      last (results_mse s) =
        \<lparr>row_fk = fst (categories ! k), row_dim = d, row_qmc = snd (categories ! k), row_t = t,
          row_log10_gain = np_add (np_neg (np_log10 m)) (np_log10 bv)\<rparr> \<and>
      last (results_mse s) \<in> set (results_mse st') \<and>
      (\<forall>x y. m = Fin x \<longrightarrow> bv = Fin y \<longrightarrow> 0 < x \<longrightarrow> 0 < y \<longrightarrow>
         row_log10_gain (last (results_mse s)) = Fin (log 10 (y / x))) \<and>
      (sample results d t ''guided'' False = [Fin 1, Fin 1, Fin 1, Fin 3] \<longrightarrow>
       sample results d t (fst (categories ! k)) (snd (categories ! k)) =
         [Fin 2, Fin 2, Fin 2, Fin 2] \<longrightarrow>
         base_mean s = Some (Fin (3 / 2)) \<and> bv = Fin (3 / 4) \<and> m = Fin (1 / 4) \<and>
         row_log10_gain (last (results_mse s)) = Fin (log 10 (3 / 4 / (1 / 4))) \<and>
         row_log10_gain (last (results_mse s)) = Fin (log 10 3) \<and>
         4770 / 10000 < log 10 (3::real) \<and> log 10 (3::real) < 4772 / 10000)"
proof -
  let ?ref = "sample results d t ''guided'' False"
  let ?es = "sample results d t (fst (categories ! k)) (snd (categories ! k))"
  from cell_in_run [OF assms, of ds1 st0 d ds2] obtain sa sb s sc st' where
    run: "format_results ds1 h results st0 = Inr sa" "t_loop t results d sa = Inr sb"
      "steps results d t (Suc k) sb = Inr s"
      "for_each (\<lambda>c. cell_body results d t (fst c) (snd c)) (drop (Suc k) categories) s = Inr sc"
      "fk_loop results d t sb = Inr sc"
      "format_results (ds1 @ d # ds2) h results st0 = Inr st'"
    and b: "base_mean s = Some (np_mean ?ref)" "base_mse s = Some (np_var ?ref)"
    and m: "mse s = Some (sq_error ?ref ?es)"
    and g: "log10_gain s = Some (gain_of ?ref ?es)"
    and r: "results_mse s \<noteq> []"
      "last (results_mse s) =
        \<lparr>row_fk = fst (categories ! k), row_dim = d, row_qmc = snd (categories ! k), row_t = t,
          row_log10_gain = gain_of ?ref ?es\<rparr>"
      "last (results_mse s) \<in> set (results_mse st')"
    by blast
  have tie: "fk_loop results d t sb =
      for_each (\<lambda>c. cell_body results d t (fst c) (snd c)) (drop (Suc k) categories) s"
    using run(4,5) by simp
  have f: "gain_of ?ref ?es =
      np_add (np_neg (np_log10 (sq_error ?ref ?es))) (np_log10 (np_var ?ref))"
    by (simp add: gain_of_def)
  have pos: "\<forall>x y. sq_error ?ref ?es = Fin x \<longrightarrow> np_var ?ref = Fin y \<longrightarrow> 0 < x \<longrightarrow> 0 < y \<longrightarrow>
         row_log10_gain (last (results_mse s)) = Fin (log 10 (y / x))"
    by (simp add: r(2) f log_divide)
  have ex: "?ref = [Fin 1, Fin 1, Fin 1, Fin 3] \<longrightarrow> ?es = [Fin 2, Fin 2, Fin 2, Fin 2] \<longrightarrow>
         base_mean s = Some (Fin (3 / 2)) \<and> np_var ?ref = Fin (3 / 4) \<and>
         sq_error ?ref ?es = Fin (1 / 4) \<and>
         row_log10_gain (last (results_mse s)) = Fin (log 10 (3 / 4 / (1 / 4))) \<and>
         row_log10_gain (last (results_mse s)) = Fin (log 10 3) \<and>
         4770 / 10000 < log 10 (3::real) \<and> log 10 (3::real) < 4772 / 10000"
    using log10_3_approx
    by (simp add: b r(2) np_mean_1113 np_var_1113 sq_error_1113_2222 gain_of_scenario)
  from run(1,2,3) tie run(6) m b(2) g r pos ex show ?thesis unfolding f by blast
qed

theorem gain_formula_witness:
  "list_all (complete 1) scenario \<and> (0::nat) < 1 \<and> (1::nat) < 4 \<and>
   (\<exists>s st'. steps scenario 5 0 2 unbound = Inr s \<and>
      fk_loop scenario 5 0 unbound =
        for_each (\<lambda>c. cell_body scenario 5 0 (fst c) (snd c)) (drop 2 categories) s \<and>
      format_results [5] 1 scenario unbound = Inr st' \<and>
      base_mean s = Some (Fin (3 / 2)) \<and> base_mse s = Some (Fin (3 / 4)) \<and>
      mse s = Some (Fin (1 / 4)) \<and> log10_gain s = Some (Fin (log 10 3)) \<and>
      last (results_mse s) = \<lparr>row_fk = ''guided'', row_dim = 5, row_qmc = True, row_t = 0,
         row_log10_gain = Fin (log 10 3)\<rparr> \<and>
      last (results_mse s) \<in> set (results_mse st'))"
proof -
  have c: "categories ! Suc 0 = (''guided'', True)" by (simp add: categories_eq)
  have k: "(0::nat) < Suc 0" "Suc 0 < 4" "(0::nat) < 1" by simp_all
  have two: "Suc (Suc 0) = 2" by simp
  from gain_formula [OF complete_scenario k(3) k(1,2), of "[]" unbound 5 "[]"]
  obtain sa sb s st' m bv where
    e: "format_results [] 1 scenario unbound = Inr sa" "t_loop 0 scenario 5 sa = Inr sb"
    and s: "steps scenario 5 0 2 sb = Inr s"
    and tie: "fk_loop scenario 5 0 sb =
        for_each (\<lambda>c. cell_body scenario 5 0 (fst c) (snd c)) (drop 2 categories) s"
    and f: "format_results [5] 1 scenario unbound = Inr st'"
    and v: "mse s = Some m" "base_mse s = Some bv"
      "log10_gain s = Some (np_add (np_neg (np_log10 m)) (np_log10 bv))"
      "last (results_mse s) =
        \<lparr>row_fk = ''guided'', row_dim = 5, row_qmc = True, row_t = 0,
          row_log10_gain = np_add (np_neg (np_log10 m)) (np_log10 bv)\<rparr>"
      "last (results_mse s) \<in> set (results_mse st')"
    and x: "base_mean s = Some (Fin (3 / 2)) \<and> bv = Fin (3 / 4) \<and> m = Fin (1 / 4)"
    unfolding two append_Nil c fst_conv snd_conv by (auto simp add: sample_scenario)
  have sb: "sb = unbound" using e by (rule entry_first_cell)
  from x have m: "m = Fin (1 / 4)" and bv: "bv = Fin (3 / 4)"
    and bm: "base_mean s = Some (Fin (3 / 2))" by simp_all
  from s tie f bm v complete_scenario show ?thesis
    unfolding sb m bv gain_quarter
    by (intro conjI exI [of _ s] exI [of _ st']) simp_all
qed


text \<open>
  C3, as stated. With a reference sample 1, 1 (so \<^verbatim>\<open>base_mse\<close> is exactly zero) and
  estimates 2, 2 in the other categories, the loop raises nothing: the guided
  quasi-random cell gets the gain minus infinity, and all three rows of the table
  carry it. With a reference sample 1, 3 and estimates 2, 2 (so \<^verbatim>\<open>mse\<close> is exactly
  zero) the rows carry plus infinity.
\<close>

theorem degenerate_gain_is_emitted:
  "steps flat_reference 5 0 2 unbound =
     Inr \<lparr>est = Some [Fin 2, Fin 2], base_mean = Some (Fin 1), base_mse = Some (Fin 0),
       mse = Some (Fin 1), log10_gain = Some NInf,
       results_mse = [\<lparr>row_fk = ''guided'', row_dim = 5, row_qmc = True, row_t = 0,
         row_log10_gain = NInf\<rparr>]\<rparr> \<and>
   make_table [5] 1 flat_reference unbound =
     Inr [\<lparr>row_fk = ''guided'', row_dim = 5, row_qmc = True, row_t = 0,
            row_log10_gain = NInf, fk_qmc = ''guided SQMC''\<rparr>,
          \<lparr>row_fk = ''boot'', row_dim = 5, row_qmc = False, row_t = 0,
            row_log10_gain = NInf, fk_qmc = ''boot SMC''\<rparr>,
          \<lparr>row_fk = ''boot'', row_dim = 5, row_qmc = True, row_t = 0,
            row_log10_gain = NInf, fk_qmc = ''boot SQMC''\<rparr>] \<and>
   steps exact_category 5 0 2 unbound =
     Inr \<lparr>est = Some [Fin 2, Fin 2], base_mean = Some (Fin 2), base_mse = Some (Fin 1),
       mse = Some (Fin 0), log10_gain = Some PInf,
       results_mse = [\<lparr>row_fk = ''guided'', row_dim = 5, row_qmc = True, row_t = 0,
         row_log10_gain = PInf\<rparr>]\<rparr> \<and>
   make_table [5] 1 exact_category unbound =
     Inr [\<lparr>row_fk = ''guided'', row_dim = 5, row_qmc = True, row_t = 0,
            row_log10_gain = PInf, fk_qmc = ''guided SQMC''\<rparr>,
          \<lparr>row_fk = ''boot'', row_dim = 5, row_qmc = False, row_t = 0,
            row_log10_gain = PInf, fk_qmc = ''boot SMC''\<rparr>,
          \<lparr>row_fk = ''boot'', row_dim = 5, row_qmc = True, row_t = 0,
            row_log10_gain = PInf, fk_qmc = ''boot SQMC''\<rparr>]"
  by (simp only: steps_2_flat_reference table_flat_reference steps_2_exact_category
      table_exact_category simp_thms)

text \<open>
  C3, amended: a zero \<^verbatim>\<open>base_mse\<close> or a zero \<^verbatim>\<open>mse\<close> raises nothing. On complete
  results the aggregator returns, run over the dimensions \<open>ds1 @ d # ds2\<close>; with \<open>sa\<close>
  the state after the dimensions before \<open>d\<close> and \<open>sb\<close> the state after the time steps
  before \<open>t\<close>, the inner loops reach each category other than the reference in a state
  \<open>s\<close> and go on from it. The row emitted there is a row of the list the aggregator
  returns, and it carries \<open>- log10 mse + log10 base_mse\<close> computed with
  \<open>log10 0 = -inf\<close>: minus infinity when \<^verbatim>\<open>base_mse\<close> is zero and \<^verbatim>\<open>mse\<close> positive, plus
  infinity when \<^verbatim>\<open>mse\<close> is zero and \<^verbatim>\<open>base_mse\<close> positive, not a number when both are
  zero.
\<close>

theorem degenerate_gain:
  assumes "list_all (complete h) results" and "t < h" and "0 < k" and "k < 4"
  shows "\<exists>sa sb s st' m bv.
      format_results ds1 h results st0 = Inr sa \<and>
      t_loop t results d sa = Inr sb \<and>
      steps results d t (Suc k) sb = Inr s \<and>
      fk_loop results d t sb =
        for_each (\<lambda>c. cell_body results d t (fst c) (snd c)) (drop (Suc k) categories) s \<and>
      format_results (ds1 @ d # ds2) h results st0 = Inr st' \<and>
      results_mse st' = grid (ds1 @ d # ds2) h results \<and>
      mse s = Some m \<and> base_mse s = Some bv \<and> results_mse s \<noteq> [] \<and>
      last (results_mse s) \<in> set (results_mse st') \<and>
      row_key (last (results_mse s)) = (d, t, categories ! k) \<and>
      row_log10_gain (last (results_mse s)) = np_add (np_neg (np_log10 m)) (np_log10 bv) \<and>
      (\<forall>x. bv = Fin 0 \<longrightarrow> m = Fin x \<longrightarrow> 0 < x \<longrightarrow>
         row_log10_gain (last (results_mse s)) = NInf) \<and>
      (\<forall>y. m = Fin 0 \<longrightarrow> bv = Fin y \<longrightarrow> 0 < y \<longrightarrow>
         row_log10_gain (last (results_mse s)) = PInf) \<and>
      (bv = Fin 0 \<longrightarrow> m = Fin 0 \<longrightarrow> row_log10_gain (last (results_mse s)) = NaN)"
proof -
  let ?ref = "sample results d t ''guided'' False"
  let ?es = "sample results d t (fst (categories ! k)) (snd (categories ! k))"
  from cell_in_run [OF assms, of ds1 st0 d ds2] obtain sa sb s sc st' where
    run: "format_results ds1 h results st0 = Inr sa" "t_loop t results d sa = Inr sb"
      "steps results d t (Suc k) sb = Inr s"
      "for_each (\<lambda>c. cell_body results d t (fst c) (snd c)) (drop (Suc k) categories) s = Inr sc"
      "fk_loop results d t sb = Inr sc"
      "format_results (ds1 @ d # ds2) h results st0 = Inr st'"
      "results_mse st' = grid (ds1 @ d # ds2) h results"
    and b: "base_mse s = Some (np_var ?ref)"
    and m: "mse s = Some (sq_error ?ref ?es)"
    and r: "results_mse s \<noteq> []"
      "last (results_mse s) =
        \<lparr>row_fk = fst (categories ! k), row_dim = d, row_qmc = snd (categories ! k), row_t = t,
          row_log10_gain = gain_of ?ref ?es\<rparr>"
      "last (results_mse s) \<in> set (results_mse st')"
    by blast
  have tie: "fk_loop results d t sb =
      for_each (\<lambda>c. cell_body results d t (fst c) (snd c)) (drop (Suc k) categories) s"
    using run(4,5) by simp
  have g: "row_log10_gain (last (results_mse s)) =
      np_add (np_neg (np_log10 (sq_error ?ref ?es))) (np_log10 (np_var ?ref))"
    by (simp add: r(2) gain_of_def)
  have key: "row_key (last (results_mse s)) = (d, t, categories ! k)"
    by (simp add: r(2) row_key_def)
  have 1: "\<forall>x. np_var ?ref = Fin 0 \<longrightarrow> sq_error ?ref ?es = Fin x \<longrightarrow> 0 < x \<longrightarrow>
      row_log10_gain (last (results_mse s)) = NInf"
    by (simp add: g)
  have 2: "\<forall>y. sq_error ?ref ?es = Fin 0 \<longrightarrow> np_var ?ref = Fin y \<longrightarrow> 0 < y \<longrightarrow>
      row_log10_gain (last (results_mse s)) = PInf"
    by (simp add: g)
  have 3: "np_var ?ref = Fin 0 \<longrightarrow> sq_error ?ref ?es = Fin 0 \<longrightarrow>
      row_log10_gain (last (results_mse s)) = NaN"
    by (simp add: g)
  from run(1,2,3) tie run(6,7) m b r(1,3) key g 1 2 3 show ?thesis by blast
qed

theorem degenerate_gain_witness:
  "list_all (complete 1) flat_reference \<and> (0::nat) < 1 \<and> (1::nat) < 4 \<and>
   (\<exists>s st'. steps flat_reference 5 0 2 unbound = Inr s \<and>
      fk_loop flat_reference 5 0 unbound =
        for_each (\<lambda>c. cell_body flat_reference 5 0 (fst c) (snd c)) (drop 2 categories) s \<and>
      format_results [5] 1 flat_reference unbound = Inr st' \<and>
      mse s = Some (Fin 1) \<and> base_mse s = Some (Fin 0) \<and>
      last (results_mse s) \<in> set (results_mse st') \<and>
      row_key (last (results_mse s)) = (5, 0, ''guided'', True) \<and>
      row_log10_gain (last (results_mse s)) = NInf)"
proof -
  have c: "categories ! Suc 0 = (''guided'', True)" by (simp add: categories_eq)
  have k: "(0::nat) < Suc 0" "Suc 0 < 4" "(0::nat) < 1" by simp_all
  have two: "Suc (Suc 0) = 2" by simp
  have cf: "list_all (complete 1) flat_reference"
    unfolding flat_reference_def by (rule complete_population)
  from degenerate_gain [OF cf k(3) k(1,2), of "[]" unbound 5 "[]"]
  obtain sa sb s st' m bv where
    e: "format_results [] 1 flat_reference unbound = Inr sa"
      "t_loop 0 flat_reference 5 sa = Inr sb"
    and s: "steps flat_reference 5 0 2 sb = Inr s"
    and tie: "fk_loop flat_reference 5 0 sb =
        for_each (\<lambda>c. cell_body flat_reference 5 0 (fst c) (snd c)) (drop 2 categories) s"
    and f: "format_results [5] 1 flat_reference unbound = Inr st'"
    and v: "mse s = Some m" "base_mse s = Some bv"
      "last (results_mse s) \<in> set (results_mse st')"
      "row_key (last (results_mse s)) = (5, 0, ''guided'', True)"
    and n: "\<forall>x. bv = Fin 0 \<longrightarrow> m = Fin x \<longrightarrow> 0 < x \<longrightarrow>
         row_log10_gain (last (results_mse s)) = NInf"
    unfolding two append_Nil c by blast
  have sb: "sb = unbound" using e by (rule entry_first_cell)
  from s v(1,2) have m: "m = Fin 1" and bv: "bv = Fin 0"
    unfolding sb by (auto simp add: steps_2_flat_reference)
  from n have g: "row_log10_gain (last (results_mse s)) = NInf"
    unfolding m bv by simp
  from s tie f v g cf show ?thesis
    unfolding sb m bv by (intro conjI exI [of _ s] exI [of _ st']) simp_all
qed


text \<open>
  C4, as stated. The collection \<^const>\<open>scenario\<close> has no record of the bootstrap
  problem at dimension 5, so the estimates gathered for both bootstrap cells are
  empty. The loop raises nothing: the table has a row for each of the two cells, with
  a gain that is not a number.
\<close>

theorem missing_replications_not_reported:
  "gather scenario 5 0 ''boot'' False = Inr [] \<and>
   gather scenario 5 0 ''boot'' True = Inr [] \<and>
   make_table [5] 1 scenario unbound =
     Inr [\<lparr>row_fk = ''guided'', row_dim = 5, row_qmc = True, row_t = 0,
            row_log10_gain = Fin (log 10 3), fk_qmc = ''guided SQMC''\<rparr>,
          \<lparr>row_fk = ''boot'', row_dim = 5, row_qmc = False, row_t = 0,
            row_log10_gain = NaN, fk_qmc = ''boot SMC''\<rparr>,
          \<lparr>row_fk = ''boot'', row_dim = 5, row_qmc = True, row_t = 0,
            row_log10_gain = NaN, fk_qmc = ''boot SQMC''\<rparr>]"
  by (simp only: gather_scenario table_scenario simp_thms)

text \<open>
  C4, amended: an empty set of estimates raises nothing and no row is dropped. On
  complete results the aggregator returns, run over the dimensions \<open>ds1 @ d # ds2\<close>,
  with the rows of \<^const>\<open>grid\<close>: three for each dimension and time step. With \<open>sa\<close> the
  state after the dimensions before \<open>d\<close> and \<open>sb\<close> the state after the time steps before
  \<open>t\<close>, the inner loops reach each category other than the reference in a state \<open>s\<close> and
  go on from it; the row emitted there is the row of that cell and is a row of the
  list the aggregator returns. Where the estimates of the cell are empty, \<^verbatim>\<open>mse\<close> is
  the mean of an empty array, not a number, and so is the gain of the row; where the
  estimates of the reference are empty, \<^verbatim>\<open>base_mean\<close> and \<^verbatim>\<open>base_mse\<close> are not a number
  and so is the gain of the row.
\<close>

theorem empty_sample_gain:
  assumes "list_all (complete h) results" and "t < h" and "0 < k" and "k < 4"
  shows "\<exists>sa sb s st'.
      format_results ds1 h results st0 = Inr sa \<and>
      t_loop t results d sa = Inr sb \<and>
      steps results d t (Suc k) sb = Inr s \<and>
      fk_loop results d t sb =
        for_each (\<lambda>c. cell_body results d t (fst c) (snd c)) (drop (Suc k) categories) s \<and>
      format_results (ds1 @ d # ds2) h results st0 = Inr st' \<and>
      results_mse st' = grid (ds1 @ d # ds2) h results \<and>
      length (results_mse st') = length (ds1 @ d # ds2) * h * 3 \<and>
      results_mse s \<noteq> [] \<and>
      last (results_mse s) \<in> set (results_mse st') \<and>
      row_key (last (results_mse s)) = (d, t, categories ! k) \<and>
      (sample results d t (fst (categories ! k)) (snd (categories ! k)) = [] \<longrightarrow>
         mse s = Some NaN \<and> row_log10_gain (last (results_mse s)) = NaN) \<and>
      (sample results d t ''guided'' False = [] \<longrightarrow>
         base_mean s = Some NaN \<and> base_mse s = Some NaN \<and>
         row_log10_gain (last (results_mse s)) = NaN)"
proof -
  let ?ref = "sample results d t ''guided'' False"
  let ?es = "sample results d t (fst (categories ! k)) (snd (categories ! k))"
  from cell_in_run [OF assms, of ds1 st0 d ds2] obtain sa sb s sc st' where
    run: "format_results ds1 h results st0 = Inr sa" "t_loop t results d sa = Inr sb"
      "steps results d t (Suc k) sb = Inr s"
      "for_each (\<lambda>c. cell_body results d t (fst c) (snd c)) (drop (Suc k) categories) s = Inr sc"
      "fk_loop results d t sb = Inr sc"
      "format_results (ds1 @ d # ds2) h results st0 = Inr st'"
      "results_mse st' = grid (ds1 @ d # ds2) h results"
    and b: "base_mean s = Some (np_mean ?ref)" "base_mse s = Some (np_var ?ref)"
    and m: "mse s = Some (sq_error ?ref ?es)"
    and r: "results_mse s \<noteq> []"
      "last (results_mse s) =
        \<lparr>row_fk = fst (categories ! k), row_dim = d, row_qmc = snd (categories ! k), row_t = t,
          row_log10_gain = gain_of ?ref ?es\<rparr>"
      "last (results_mse s) \<in> set (results_mse st')"
    by blast
  have tie: "fk_loop results d t sb =
      for_each (\<lambda>c. cell_body results d t (fst c) (snd c)) (drop (Suc k) categories) s"
    using run(4,5) by simp
  have len: "length (results_mse st') = length (ds1 @ d # ds2) * h * 3"
    unfolding run(7) by (rule length_grid)
  have key: "row_key (last (results_mse s)) = (d, t, categories ! k)"
    by (simp add: r(2) row_key_def)
  have 1: "?es = [] \<longrightarrow> mse s = Some NaN \<and> row_log10_gain (last (results_mse s)) = NaN"
    by (simp add: m r(2) sq_error_Nil gain_of_empty)
  have 2: "?ref = [] \<longrightarrow> base_mean s = Some NaN \<and> base_mse s = Some NaN \<and>
           row_log10_gain (last (results_mse s)) = NaN"
    by (simp add: b r(2) np_mean_Nil np_var_Nil gain_of_no_reference)
  from run(1,2,3) tie run(6,7) len r(1,3) key 1 2 show ?thesis by blast
qed

theorem empty_sample_gain_witness:
  "list_all (complete 1) scenario \<and> (0::nat) < 1 \<and> (0::nat) < 2 \<and> (2::nat) < 4 \<and>
   sample scenario 5 0 ''boot'' False = [] \<and>
   (\<exists>s st'. steps scenario 5 0 3 unbound = Inr s \<and>
      fk_loop scenario 5 0 unbound =
        for_each (\<lambda>c. cell_body scenario 5 0 (fst c) (snd c)) (drop 3 categories) s \<and>
      format_results [5] 1 scenario unbound = Inr st' \<and>
      length (results_mse st') = 3 \<and>
      last (results_mse s) \<in> set (results_mse st') \<and>
      row_key (last (results_mse s)) = (5, 0, ''boot'', False) \<and>
      mse s = Some NaN \<and> row_log10_gain (last (results_mse s)) = NaN)"
proof -
  have c: "categories ! 2 = (''boot'', False)" by (simp add: categories_eq)
  have k: "(0::nat) < 2" "(2::nat) < 4" "(0::nat) < 1" by simp_all
  have three: "Suc 2 = 3" by simp
  from empty_sample_gain [OF complete_scenario k(3) k(1,2), of "[]" unbound 5 "[]"]
  obtain sa sb s st' where
    e: "format_results [] 1 scenario unbound = Inr sa" "t_loop 0 scenario 5 sa = Inr sb"
    and s: "steps scenario 5 0 3 sb = Inr s"
    and tie: "fk_loop scenario 5 0 sb =
        for_each (\<lambda>c. cell_body scenario 5 0 (fst c) (snd c)) (drop 3 categories) s"
    and f: "format_results [5] 1 scenario unbound = Inr st'"
    and len: "length (results_mse st') = length [5::int] * 1 * 3"
    and v: "last (results_mse s) \<in> set (results_mse st')"
      "row_key (last (results_mse s)) = (5, 0, ''boot'', False)"
    and n: "sample scenario 5 0 ''boot'' False = [] \<longrightarrow>
         mse s = Some NaN \<and> row_log10_gain (last (results_mse s)) = NaN"
    unfolding three append_Nil c fst_conv snd_conv by blast
  have sb: "sb = unbound" using e by (rule entry_first_cell)
  from n have g: "mse s = Some NaN" "row_log10_gain (last (results_mse s)) = NaN"
    by (simp_all add: sample_scenario)
  from len have l3: "length (results_mse st') = 3" by simp
  from s tie f l3 v g complete_scenario show ?thesis
    unfolding sb by (intro conjI exI [of _ s] exI [of _ st']) (simp_all add: sample_scenario)
qed


subsection \<open>The table does not depend on the variables left by an earlier run\<close>

lemma fk_loop_indep:
  assumes "results_mse st = results_mse st'"
  shows "fk_loop results d t st = fk_loop results d t st'"
proof (cases "gather results d t ''guided'' False")
  case (Inl e)
  then show ?thesis by (simp add: fk_loop_def qmc_loop_def cell_body_ref)
next
  case e1: (Inr e1)
  show ?thesis
  proof (cases "gather results d t ''guided'' True")
    case (Inl e)
    with e1 show ?thesis by (simp add: fk_loop_def qmc_loop_def cell_body_ref cell_body_other)
  next
    case e2: (Inr e2)
    show ?thesis
    proof (cases "gather results d t ''boot'' False")
      case (Inl e)
      with e1 e2 show ?thesis
        by (simp add: fk_loop_def qmc_loop_def cell_body_ref cell_body_other)
    next
      case e3: (Inr e3)
      show ?thesis
      proof (cases "gather results d t ''boot'' True")
        case (Inl e)
        with e1 e2 e3 show ?thesis
          by (simp add: fk_loop_def qmc_loop_def cell_body_ref cell_body_other)
      next
        case e4: (Inr e4)
        from assms show ?thesis
          unfolding fk_loop_result [OF e1 e2 e3 e4]
          by (cases st; cases st') simp
      qed
    qed
  qed
qed

lemma for_each_agree:
  assumes step: "\<And>x s s'. results_mse s = results_mse s' \<Longrightarrow>
      rel_sum (=) (\<lambda>a b. results_mse a = results_mse b) (body x s) (body x s')"
    and "results_mse st = results_mse st'"
  shows "rel_sum (=) (\<lambda>a b. results_mse a = results_mse b)
      (for_each body xs st) (for_each body xs st')"
  using assms(2)
proof (induction xs arbitrary: st st')
  case Nil
  then show ?case by simp
next
  case (Cons x xs)
  from step [OF Cons.prems, of x] Cons.IH show ?case
    by (cases "body x st"; cases "body x st'") simp_all
qed

lemma fk_loop_agree:
  assumes "results_mse st = results_mse st'"
  shows "rel_sum (=) (\<lambda>a b. results_mse a = results_mse b)
      (fk_loop results d t st) (fk_loop results d t st')"
  unfolding fk_loop_indep [OF assms]
  by (cases "fk_loop results d t st'") simp_all

lemma t_loop_agree:
  assumes "results_mse st = results_mse st'"
  shows "rel_sum (=) (\<lambda>a b. results_mse a = results_mse b)
      (t_loop h results d st) (t_loop h results d st')"
  unfolding t_loop_def using fk_loop_agree assms by (rule for_each_agree)

lemma format_results_agree:
  "rel_sum (=) (\<lambda>a b. results_mse a = results_mse b)
      (format_results ds h results st) (format_results ds h results st')"
  unfolding format_results_def by (rule for_each_agree [OF t_loop_agree]) simp_all

lemma grid_nonempty: "ds \<noteq> [] \<Longrightarrow> 0 < h \<Longrightarrow> grid ds h results \<noteq> []"
proof -
  assume "ds \<noteq> []" and "0 < h"
  then have "0 < length ds * h * 3" by simp
  then have "0 < length (grid ds h results)" by (simp only: length_grid)
  then show ?thesis by simp
qed

text \<open>
  C9: the aggregation and the table built from it are a function of the collection of
  replication results alone. Every variable the loop reads is assigned by the loop
  before it is read and \<^verbatim>\<open>results_mse\<close> is reset at the start, so the table (or the
  error raised) is the same whatever values \<open>st\<close> and \<open>st'\<close> the variables hold when the
  stage starts: those of a fresh interpreter, or those a first run left behind. Two
  runs on the same collection give the same rows, with the same values and the same
  combined labels, in the same order; on complete results, for at least one dimension
  and one time step, that table is the labelled \<^const>\<open>grid\<close> of the collection.
\<close>

theorem table_is_deterministic:
  "make_table ds h results st = make_table ds h results st' \<and>
   (list_all (complete h) results \<longrightarrow> ds \<noteq> [] \<longrightarrow> 0 < h \<longrightarrow>
      make_table ds h results st = Inr (map label (grid ds h results)) \<and>
      make_table ds h results st' = Inr (map label (grid ds h results)))"
proof -
  have "make_table ds h results st = make_table ds h results st'"
    using format_results_agree [of ds h results st st']
    by (cases "format_results ds h results st"; cases "format_results ds h results st'")
      (simp_all add: make_table_def)
  moreover have "make_table ds h results s = Inr (map label (grid ds h results))"
    if "list_all (complete h) results" "ds \<noteq> []" "0 < h" for s
    using that by (simp add: make_table_complete build_table_def grid_nonempty)
  ultimately show ?thesis by blast
qed

theorem table_is_deterministic_witness:
  "list_all (complete 1) scenario \<and> [5::int] \<noteq> [] \<and> (0::nat) < 1 \<and>
   make_table [5] 1 scenario unbound = make_table [5] 1 scenario stale \<and>
   make_table [5] 1 scenario stale =
     Inr [\<lparr>row_fk = ''guided'', row_dim = 5, row_qmc = True, row_t = 0,
            row_log10_gain = Fin (log 10 3), fk_qmc = ''guided SQMC''\<rparr>,
          \<lparr>row_fk = ''boot'', row_dim = 5, row_qmc = False, row_t = 0,
            row_log10_gain = NaN, fk_qmc = ''boot SMC''\<rparr>,
          \<lparr>row_fk = ''boot'', row_dim = 5, row_qmc = True, row_t = 0,
            row_log10_gain = NaN, fk_qmc = ''boot SQMC''\<rparr>]"
  using table_is_deterministic [of "[5]" 1 scenario unbound stale] complete_scenario
  by (simp add: grid_single cells_scenario label_def)


subsection \<open>The keys of the rows\<close>

lemma dims_eq: "dims = [5, 10, 15, 20]"
proof -
  have "[0..<4] = [0, 1, 2, 3]" by (simp add: upt_rec)
  then show ?thesis by (simp add: dims_def py_range_def)
qed








subsection \<open>Samples with the same estimates\<close>

lemma mean_sq_dev_mset:
  assumes "mset ys = mset xs"
  shows "mean_sq_dev c ys = mean_sq_dev c xs"
proof -
  have "sum_list (map (\<lambda>x. (x - c)\<^sup>2) ys) = sum_mset (image_mset (\<lambda>x. (x - c)\<^sup>2) (mset ys))"
    by (simp flip: sum_mset_sum_list)
  also have "\<dots> = sum_list (map (\<lambda>x. (x - c)\<^sup>2) xs)"
    unfolding assms by (simp flip: sum_mset_sum_list)
  finally have "sum_list (map (\<lambda>x. (x - c)\<^sup>2) ys) = sum_list (map (\<lambda>x. (x - c)\<^sup>2) xs)" .
  moreover from assms have "length ys = length xs" by (rule mset_eq_length)
  ultimately show ?thesis by (simp add: mean_sq_dev_def mean_def)
qed

lemma variance_pos_nonempty: "0 < variance xs \<Longrightarrow> xs \<noteq> []"
  by (auto simp add: variance_def mean_sq_dev_def mean_def)

lemma gain_same_sample:
  assumes "mset ys = mset xs" and "0 < variance xs"
  shows "sq_error (map Fin xs) (map Fin ys) = Fin (variance xs)"
    and "np_var (map Fin xs) = Fin (variance xs)"
    and "gain_of (map Fin xs) (map Fin ys) = Fin 0"
proof -
  from assms(2) have xs: "xs \<noteq> []" by (rule variance_pos_nonempty)
  with assms(1) have ys: "ys \<noteq> []" by auto
  show 1: "sq_error (map Fin xs) (map Fin ys) = Fin (variance xs)"
    using xs ys by (simp add: sq_error_Fin mean_sq_dev_mset [OF assms(1)] variance_def)
  show 2: "np_var (map Fin xs) = Fin (variance xs)"
    using xs by (rule np_var_Fin)
  from assms(2) show "gain_of (map Fin xs) (map Fin ys) = Fin 0"
    by (simp add: gain_of_def 1 2)
qed


lemma mset_map_Fin:
  assumes "mset es = mset (map Fin xs)"
  shows "\<exists>ys. es = map Fin ys \<and> mset ys = mset xs"
proof -
  define un where "un = (\<lambda>e. case e of Fin x \<Rightarrow> x | _ \<Rightarrow> 0)"
  have un: "un (Fin x) = x" for x by (simp add: un_def)
  from assms have "set es = set (map Fin xs)" by (rule mset_eq_setD)
  then have "\<forall>e \<in> set es. \<exists>x. e = Fin x" by auto
  then have 1: "map Fin (map un es) = es"
    by (induction es) (auto simp add: un)
  from assms have "image_mset un (mset es) = image_mset un (mset (map Fin xs))" by simp
  then have 2: "mset (map un es) = mset xs"
    by (simp add: multiset.map_comp comp_def un)
  from 1 2 show ?thesis by metis
qed

lemma variance_13: "variance [1, 3] = 1"
  by (simp add: variance_def mean_sq_dev_def mean_def)

text \<open>
  C8, as stated. In the collection \<^const>\<open>same_flat\<close> the guided quasi-random cell has
  the estimates of the reference, 1 and 1. The aggregator reaches the cell with
  \<^verbatim>\<open>mse\<close> and \<^verbatim>\<open>base_mse\<close> both zero, as stated, but the gain it emits is
  \<open>- log10 0 + log10 0\<close>, which is not a number, not 0; the rows of the table carry it.
\<close>

theorem same_sample_gain_not_zero:
  "gather same_flat 5 0 ''guided'' False = Inr [Fin 1, Fin 1] \<and>
   gather same_flat 5 0 ''guided'' True = Inr [Fin 1, Fin 1] \<and>
   steps same_flat 5 0 2 unbound =
     Inr \<lparr>est = Some [Fin 1, Fin 1], base_mean = Some (Fin 1), base_mse = Some (Fin 0),
       mse = Some (Fin 0), log10_gain = Some NaN,
       results_mse = [\<lparr>row_fk = ''guided'', row_dim = 5, row_qmc = True, row_t = 0,
         row_log10_gain = NaN\<rparr>]\<rparr> \<and>
   fk_loop same_flat 5 0 unbound =
     for_each (\<lambda>c. cell_body same_flat 5 0 (fst c) (snd c)) (drop 2 categories)
       \<lparr>est = Some [Fin 1, Fin 1], base_mean = Some (Fin 1), base_mse = Some (Fin 0),
         mse = Some (Fin 0), log10_gain = Some NaN,
         results_mse = [\<lparr>row_fk = ''guided'', row_dim = 5, row_qmc = True, row_t = 0,
           row_log10_gain = NaN\<rparr>]\<rparr> \<and>
   make_table [5] 1 same_flat unbound =
     Inr [\<lparr>row_fk = ''guided'', row_dim = 5, row_qmc = True, row_t = 0,
            row_log10_gain = NaN, fk_qmc = ''guided SQMC''\<rparr>,
          \<lparr>row_fk = ''boot'', row_dim = 5, row_qmc = False, row_t = 0,
            row_log10_gain = NaN, fk_qmc = ''boot SMC''\<rparr>,
          \<lparr>row_fk = ''boot'', row_dim = 5, row_qmc = True, row_t = 0,
            row_log10_gain = NaN, fk_qmc = ''boot SQMC''\<rparr>] \<and>
   NaN \<noteq> Fin 0"
proof -
  have le: "(2::nat) \<le> 4" by simp
  have g: "gather same_flat 5 0 ''guided'' False = Inr [Fin 1, Fin 1]"
    "gather same_flat 5 0 ''guided'' True = Inr [Fin 1, Fin 1]"
    unfolding same_flat_def by (simp_all add: gather_population)
  have tie: "fk_loop same_flat 5 0 unbound =
     for_each (\<lambda>c. cell_body same_flat 5 0 (fst c) (snd c)) (drop 2 categories)
       \<lparr>est = Some [Fin 1, Fin 1], base_mean = Some (Fin 1), base_mse = Some (Fin 0),
         mse = Some (Fin 0), log10_gain = Some NaN,
         results_mse = [\<lparr>row_fk = ''guided'', row_dim = 5, row_qmc = True, row_t = 0,
           row_log10_gain = NaN\<rparr>]\<rparr>"
    unfolding fk_loop_split [OF le, of same_flat 5 0 unbound] steps_2_same_flat by simp
  have n: "NaN \<noteq> Fin 0" by simp
  from g steps_2_same_flat tie table_same_flat [of unbound] n
  show ?thesis by (intro conjI) (simp_all only: simp_thms)
qed

text \<open>
  C8, amended: where the estimates of a category other than the reference are, as a
  multiset, those of the reference, and these are finite with a positive variance (so
  there is at least one and they are not all equal), \<^verbatim>\<open>mse\<close> equals \<^verbatim>\<open>base_mse\<close> and
  the gain emitted is 0. This is in the run of the aggregator over the dimensions
  \<open>ds1 @ d # ds2\<close>: \<open>sa\<close> is the state after the dimensions before \<open>d\<close>, \<open>sb\<close> the state
  after the time steps before \<open>t\<close>, \<open>s\<close> the state in which the inner loops have reached
  the category and from which they go on, and the row emitted there is a row of the
  list the aggregator returns.
\<close>

theorem same_sample_gain:
  assumes "list_all (complete h) results" and "t < h" and "0 < k" and "k < 4"
    and "sample results d t ''guided'' False = map Fin xs"
    and "mset (sample results d t (fst (categories ! k)) (snd (categories ! k))) =
         mset (sample results d t ''guided'' False)"
    and "0 < variance xs"
  shows "\<exists>sa sb s st'.
      format_results ds1 h results st0 = Inr sa \<and>
      t_loop t results d sa = Inr sb \<and>
      steps results d t (Suc k) sb = Inr s \<and>
      fk_loop results d t sb =
        for_each (\<lambda>c. cell_body results d t (fst c) (snd c)) (drop (Suc k) categories) s \<and>
      format_results (ds1 @ d # ds2) h results st0 = Inr st' \<and>
      base_mse s = Some (Fin (variance xs)) \<and> mse s = base_mse s \<and>
      log10_gain s = Some (Fin 0) \<and> results_mse s \<noteq> [] \<and>
      last (results_mse s) =
        \<lparr>row_fk = fst (categories ! k), row_dim = d, row_qmc = snd (categories ! k), row_t = t,
          row_log10_gain = Fin 0\<rparr> \<and>
      last (results_mse s) \<in> set (results_mse st')"
proof -
  let ?ref = "sample results d t ''guided'' False"
  let ?es = "sample results d t (fst (categories ! k)) (snd (categories ! k))"
  from assms(5,6) obtain ys where ys: "?es = map Fin ys" "mset ys = mset xs"
    using mset_map_Fin by metis
  note same = gain_same_sample [OF ys(2) assms(7)]
  from cell_in_run [OF assms(1-4), of ds1 st0 d ds2] obtain sa sb s sc st' where
    run: "format_results ds1 h results st0 = Inr sa" "t_loop t results d sa = Inr sb"
      "steps results d t (Suc k) sb = Inr s"
      "for_each (\<lambda>c. cell_body results d t (fst c) (snd c)) (drop (Suc k) categories) s = Inr sc"
      "fk_loop results d t sb = Inr sc"
      "format_results (ds1 @ d # ds2) h results st0 = Inr st'"
    and b: "base_mse s = Some (np_var ?ref)"
    and m: "mse s = Some (sq_error ?ref ?es)"
    and g: "log10_gain s = Some (gain_of ?ref ?es)"
    and r: "results_mse s \<noteq> []"
      "last (results_mse s) =
        \<lparr>row_fk = fst (categories ! k), row_dim = d, row_qmc = snd (categories ! k), row_t = t,
          row_log10_gain = gain_of ?ref ?es\<rparr>"
      "last (results_mse s) \<in> set (results_mse st')"
    by blast
  have tie: "fk_loop results d t sb =
      for_each (\<lambda>c. cell_body results d t (fst c) (snd c)) (drop (Suc k) categories) s"
    using run(4,5) by simp
  from b m g r(2) have v: "base_mse s = Some (Fin (variance xs))" "mse s = base_mse s"
    "log10_gain s = Some (Fin 0)"
    "last (results_mse s) =
        \<lparr>row_fk = fst (categories ! k), row_dim = d, row_qmc = snd (categories ! k), row_t = t,
          row_log10_gain = Fin 0\<rparr>"
    unfolding assms(5) ys(1) same by simp_all
  from run(1,2,3) tie run(6) v r(1,3) show ?thesis by blast
qed

theorem same_sample_gain_witness:
  "list_all (complete 1) shuffled \<and> (0::nat) < 1 \<and> (1::nat) < 4 \<and>
   sample shuffled 5 0 ''guided'' False = map Fin [1, 3] \<and>
   sample shuffled 5 0 ''guided'' True = map Fin [3, 1] \<and>
   mset (map Fin [3, 1]) = mset (map Fin [1, 3]) \<and> 0 < variance [1, 3] \<and>
   (\<exists>s st'. steps shuffled 5 0 2 unbound = Inr s \<and>
      fk_loop shuffled 5 0 unbound =
        for_each (\<lambda>c. cell_body shuffled 5 0 (fst c) (snd c)) (drop 2 categories) s \<and>
      format_results [5] 1 shuffled unbound = Inr st' \<and>
      base_mse s = Some (Fin 1) \<and> mse s = Some (Fin 1) \<and> log10_gain s = Some (Fin 0) \<and>
      last (results_mse s) = \<lparr>row_fk = ''guided'', row_dim = 5, row_qmc = True, row_t = 0,
         row_log10_gain = Fin 0\<rparr> \<and>
      last (results_mse s) \<in> set (results_mse st'))"
proof -
  have c: "categories ! Suc 0 = (''guided'', True)" by (simp add: categories_eq)
  have k: "(0::nat) < Suc 0" "Suc 0 < 4" "(0::nat) < 1" by simp_all
  have two: "Suc (Suc 0) = 2" by simp
  have cf: "list_all (complete 1) shuffled"
    unfolding shuffled_def by (rule complete_population)
  have sm: "sample shuffled 5 0 ''guided'' False = map Fin [1, 3]"
    "sample shuffled 5 0 ''guided'' True = map Fin [3, 1]"
    unfolding shuffled_def by (simp_all only: sample_population)
  have ms: "mset (map Fin [3, 1]) = mset (map Fin [1, 3])" by (simp add: add_mset_commute)
  have ms': "mset (sample shuffled 5 0 (fst (categories ! Suc 0)) (snd (categories ! Suc 0)))
      = mset (sample shuffled 5 0 ''guided'' False)"
    unfolding c fst_conv snd_conv sm by (rule ms)
  have pos: "0 < variance [1, 3]" by (simp add: variance_13)
  from same_sample_gain [OF cf k(3) k(1,2) sm(1) ms' pos, of "[]" unbound "[]"]
  obtain sa sb s st' where
    e: "format_results [] 1 shuffled unbound = Inr sa" "t_loop 0 shuffled 5 sa = Inr sb"
    and s: "steps shuffled 5 0 2 sb = Inr s"
    and tie: "fk_loop shuffled 5 0 sb =
        for_each (\<lambda>c. cell_body shuffled 5 0 (fst c) (snd c)) (drop 2 categories) s"
    and f: "format_results [5] 1 shuffled unbound = Inr st'"
    and v: "base_mse s = Some (Fin (variance [1, 3]))" "mse s = base_mse s"
      "log10_gain s = Some (Fin 0)"
      "last (results_mse s) =
        \<lparr>row_fk = ''guided'', row_dim = 5, row_qmc = True, row_t = 0, row_log10_gain = Fin 0\<rparr>"
      "last (results_mse s) \<in> set (results_mse st')"
    unfolding two append_Nil c fst_conv snd_conv by blast
  have sb: "sb = unbound" using e by (rule entry_first_cell)
  from v(1,2) have b: "base_mse s = Some (Fin 1)" "mse s = Some (Fin 1)"
    by (simp_all add: variance_13)
  from s tie f b v(3,4,5) cf sm ms pos show ?thesis
    unfolding sb by (intro conjI exI [of _ s] exI [of _ st']) simp_all
qed


subsection \<open>The decimal names are injective\<close>

lemma digit_char_cases:
  fixes k :: nat
  assumes "k < 10"
  shows "k = 0 \<or> k = 1 \<or> k = 2 \<or> k = 3 \<or> k = 4 \<or> k = 5 \<or> k = 6 \<or> k = 7 \<or> k = 8 \<or> k = 9"
  using assms by arith

lemma digit_char_inj:
  assumes "i < 10" and "j < 10" and "digit_char i = digit_char j"
  shows "i = j"
  using digit_char_cases [OF assms(1)] digit_char_cases [OF assms(2)] assms(3)
  by (elim disjE) (simp_all add: digit_char_def)

lemma digit_char_not_minus: "k < 10 \<Longrightarrow> digit_char k \<noteq> CHR ''-''"
  using digit_char_cases [of k] by (elim disjE | simp add: digit_char_def)+

lemma dec_str_nonempty: "dec_str n \<noteq> []"
  by (subst dec_str.simps) simp

lemma dec_str_last: "last (dec_str n) = digit_char (n mod 10)"
  by (subst dec_str.simps) simp

lemma dec_str_butlast: "butlast (dec_str n) = (if n < 10 then [] else dec_str (n div 10))"
  by (subst dec_str.simps) (simp add: butlast_append)

lemma dec_str_length_one: "length (dec_str n) = 1 \<longleftrightarrow> n < 10"
proof (cases "n < 10")
  case True
  then show ?thesis by (subst dec_str.simps) simp
next
  case False
  have "dec_str (n div 10) \<noteq> []" by (rule dec_str_nonempty)
  then have "0 < length (dec_str (n div 10))" by simp
  with False show ?thesis by (subst dec_str.simps) simp
qed

lemma dec_str_inj: "dec_str m = dec_str n \<Longrightarrow> m = n"
proof (induction m arbitrary: n rule: dec_str.induct)
  case (1 m)
  from "1.prems" have l: "digit_char (m mod 10) = digit_char (n mod 10)"
    by (metis dec_str_last)
  then have md: "m mod 10 = n mod 10"
    by (intro digit_char_inj) simp_all
  from "1.prems" have len: "m < 10 \<longleftrightarrow> n < 10"
    by (metis dec_str_length_one)
  show ?case
  proof (cases "m < 10")
    case True
    with len md show ?thesis by simp
  next
    case False
    with len have n: "\<not> n < 10" by simp
    from "1.prems" have "butlast (dec_str m) = butlast (dec_str n)" by simp
    with False n have "dec_str (m div 10) = dec_str (n div 10)"
      by (simp add: dec_str_butlast)
    with "1.IH" False have "m div 10 = n div 10" by simp
    with md show ?thesis by (metis div_mult_mod_eq)
  qed
qed

lemma dec_str_hd_not_minus: "hd (dec_str n) \<noteq> CHR ''-''"
proof (induction n rule: dec_str.induct)
  case (1 n)
  show ?case
  proof (cases "n < 10")
    case True
    then show ?thesis by (subst dec_str.simps) (simp add: digit_char_not_minus)
  next
    case False
    with 1 dec_str_nonempty [of "n div 10"] show ?thesis
      by (subst dec_str.simps) simp
  qed
qed

lemma fmt_i_inj: "fmt_i d = fmt_i e \<Longrightarrow> d = e"
proof -
  assume eq: "fmt_i d = fmt_i e"
  have neg: False if "CHR ''-'' # xs = dec_str n" for xs n
    using dec_str_hd_not_minus [of n] that by (metis list.sel(1))
  show ?thesis
  proof (cases "d < 0"; cases "e < 0")
    assume "d < 0" "e < 0"
    with eq have "nat (- d) = nat (- e)" by (simp add: fmt_i_def dec_str_inj)
    with \<open>d < 0\<close> \<open>e < 0\<close> show ?thesis by simp
  next
    assume "d < 0" "\<not> e < 0"
    with eq neg show ?thesis by (simp add: fmt_i_def)
  next
    assume "\<not> d < 0" "e < 0"
    with eq neg [of "dec_str (nat (- e))" "nat d"] show ?thesis by (simp add: fmt_i_def)
  next
    assume "\<not> d < 0" "\<not> e < 0"
    with eq have "nat d = nat e" by (simp add: fmt_i_def dec_str_inj)
    with \<open>\<not> d < 0\<close> \<open>\<not> e < 0\<close> show ?thesis by simp
  qed
qed


subsection \<open>The registry\<close>

lemma update_fresh: "k \<notin> fst ` set al \<Longrightarrow> AList.update k v al = al @ [(k, v)]"
  by (induction al) auto

lemma names_differ: "''boot_'' @ a \<noteq> ''guided_'' @ b"
  by simp

lemma names_of_entries:
  "fst ` set (concat (map (\<lambda>d. [(''boot_'' @ fmt_i d, f d), (''guided_'' @ fmt_i d, g d)]) ds)) =
     (\<lambda>d. ''boot_'' @ fmt_i d) ` set ds \<union> (\<lambda>d. ''guided_'' @ fmt_i d) ` set ds"
  by (induction ds) auto

lemma register_fresh:
  assumes "''boot_'' @ fmt_i d \<notin> fst ` set models"
    and "''guided_'' @ fmt_i d \<notin> fst ` set models"
  shows "register simulate models d =
     models @ [(''boot_'' @ fmt_i d, Bootstrap (fst (simulate d)) (snd (simulate d))),
               (''guided_'' @ fmt_i d, GuidedPF (fst (simulate d)) (snd (simulate d)))]"
proof -
  let ?b = "(''boot_'' @ fmt_i d, Bootstrap (fst (simulate d)) (snd (simulate d)))"
  have 1: "AList.update (fst ?b) (snd ?b) models = models @ [?b]"
    using assms(1) by (simp add: update_fresh)
  have "''guided_'' @ fmt_i d \<notin> fst ` set (models @ [?b])"
    using assms(2) by simp
  then have 2: "AList.update (''guided_'' @ fmt_i d)
      (GuidedPF (fst (simulate d)) (snd (simulate d))) (models @ [?b]) =
      (models @ [?b]) @ [(''guided_'' @ fmt_i d, GuidedPF (fst (simulate d)) (snd (simulate d)))]"
    by (rule update_fresh)
  from 1 2 show ?thesis
    by (simp add: register_def case_prod_beta)
qed

lemma build_models_entries:
  assumes "distinct ds"
  shows "build_models simulate ds =
     concat (map (\<lambda>d. [(''boot_'' @ fmt_i d, Bootstrap (fst (simulate d)) (snd (simulate d))),
                       (''guided_'' @ fmt_i d, GuidedPF (fst (simulate d)) (snd (simulate d)))])
       ds)"
  using assms
proof (induction ds rule: rev_induct)
  case Nil
  then show ?case by (simp add: build_models_def)
next
  case (snoc d ds)
  from snoc.prems have d: "d \<notin> set ds" and dist: "distinct ds" by simp_all
  note IH = snoc.IH [OF dist]
  have fresh: "''boot_'' @ fmt_i d \<notin> fst ` set (build_models simulate ds)"
    "''guided_'' @ fmt_i d \<notin> fst ` set (build_models simulate ds)"
    unfolding IH names_of_entries using d by (auto dest: fmt_i_inj)
  have "build_models simulate (ds @ [d]) = register simulate (build_models simulate ds) d"
    by (simp add: build_models_def)
  also note register_fresh [OF fresh]
  finally show ?case by (simp add: IH)
qed

lemma names_distinct:
  "distinct ds \<Longrightarrow>
     distinct (concat (map (\<lambda>d. [''boot_'' @ fmt_i d, ''guided_'' @ fmt_i d]) ds))"
  by (induction ds) (auto dest: fmt_i_inj)

lemma fmt_i_dims:
  "fmt_i 5 = ''5''" "fmt_i 10 = ''10''" "fmt_i 15 = ''15''" "fmt_i 20 = ''20''"
  by (simp_all add: fmt_i_def dec_str.simps digit_char_def)

text \<open>
  C7: for distinct dimensions the registry is, in the order of the dimensions, the
  bootstrap problem and then the guided problem of each dimension, under the names
  \<^verbatim>\<open>boot_d\<close> and \<^verbatim>\<open>guided_d\<close>. So it has twice as many entries as there are
  dimensions, no name occurs twice, and the entries stand in the order in which they
  were inserted; for the dimensions of the script the names are \<^verbatim>\<open>boot_5\<close>,
  \<^verbatim>\<open>guided_5\<close>, ..., \<^verbatim>\<open>boot_20\<close>, \<^verbatim>\<open>guided_20\<close>.
\<close>

theorem registry_entries:
  assumes "distinct ds"
  shows "build_models simulate ds =
       concat (map (\<lambda>d. [(''boot_'' @ fmt_i d, Bootstrap (fst (simulate d)) (snd (simulate d))),
                         (''guided_'' @ fmt_i d, GuidedPF (fst (simulate d)) (snd (simulate d)))])
         ds) \<and>
     length (build_models simulate ds) = 2 * length ds \<and>
     distinct (map fst (build_models simulate ds)) \<and>
     map fst (build_models simulate ds) =
       concat (map (\<lambda>d. [''boot_'' @ fmt_i d, ''guided_'' @ fmt_i d]) ds) \<and>
     (ds = dims \<longrightarrow>
        map fst (build_models simulate ds) =
          [''boot_5'', ''guided_5'', ''boot_10'', ''guided_10'',
           ''boot_15'', ''guided_15'', ''boot_20'', ''guided_20''])"
proof -
  note e = build_models_entries [OF assms, of simulate]
  have keys: "map fst (build_models simulate ds) =
      concat (map (\<lambda>d. [''boot_'' @ fmt_i d, ''guided_'' @ fmt_i d]) ds)"
    unfolding e by (induction ds) simp_all
  have len: "length (build_models simulate ds) = 2 * length ds"
    unfolding e by (induction ds) simp_all
  have dist: "distinct (map fst (build_models simulate ds))"
    unfolding keys using assms by (rule names_distinct)
  have inst: "ds = dims \<longrightarrow>
        map fst (build_models simulate ds) =
          [''boot_5'', ''guided_5'', ''boot_10'', ''guided_10'',
           ''boot_15'', ''guided_15'', ''boot_20'', ''guided_20'']"
    unfolding keys by (simp add: dims_eq fmt_i_dims)
  from e len dist keys inst show ?thesis by blast
qed

theorem registry_entries_witness:
  "distinct dims \<and>
   build_models (\<lambda>d. (d, 2 * d)) dims =
     [(''boot_5'', Bootstrap 5 10), (''guided_5'', GuidedPF 5 10),
      (''boot_10'', Bootstrap 10 20), (''guided_10'', GuidedPF 10 20),
      (''boot_15'', Bootstrap 15 30), (''guided_15'', GuidedPF 15 30),
      (''boot_20'', Bootstrap 20 40), (''guided_20'', GuidedPF 20 40)] \<and>
   length (build_models (\<lambda>d. (d, 2 * d)) dims) = 8 \<and>
   distinct (map fst (build_models (\<lambda>d. (d, 2 * d)) dims))"
proof -
  have d: "distinct dims" by (simp add: dims_eq)
  from registry_entries [OF d, of "\<lambda>d. (d, 2 * d)"] d show ?thesis
    by (simp add: dims_eq fmt_i_dims)
qed

end
